theory Spec2Isabelle
  imports Complex_Main "HOL-Library.AList" "HOL-Library.Multiset"
begin

section \<open>The 3D crossword: geometry, lattice reconciler, validity, loader and edit history\<close>

text \<open>
  The embedding follows the second generation of \<^verbatim>\<open>src/src/App.tsx\<close> (the part of the
  file from \<^verbatim>\<open>wordLetterPosition\<close> at line 1178 on). Lattice coordinates are JavaScript
  numbers that hold integers: an \<open>int\<close> here stands for the double of that value, and
  sums and differences of coordinates are rounded as the double arithmetic of the source
  rounds them (see the subsection on numbers). A JavaScript string
  is modelled as a \<open>string\<close>, one \<open>char\<close> per code unit. The \<^verbatim>\<open>Map\<close> keyed by the text
  \<^verbatim>\<open>`${x} ${y} ${z}`\<close> is an association list keyed by the coordinate itself (the text
  is an injective rendering of the triple), in insertion order, as a \<^verbatim>\<open>Map\<close> iterates.
\<close>

subsection \<open>Data model\<close>

datatype direction = X | Y | Z

type_synonym coord = "int \<times> int \<times> int"

record Word =
  word :: string
  direction :: direction
  start :: coord
  description :: string

text \<open>
  A crossword is a name and a word array. The loader and the solving view hold an array
  of words. The word array of the editor state is declared the same, but the reducer can
  put \<^verbatim>\<open>undefined\<close> into it (see \<open>reducer\<close>), so its slots are optional there.
\<close>

record 'w CrosswordOf =
  name :: string
  words :: "'w list"

type_synonym Crossword = "Word CrosswordOf"

type_synonym EditedCrossword = "Word option CrosswordOf"

subsection \<open>Numbers\<close>

text \<open>
  A JavaScript number is an IEEE double. Every integer of magnitude up to \<open>2 ^ 53\<close> is a
  double; above, the doubles between \<open>2 ^ e\<close> and \<open>2 ^ (e + 1)\<close> are the multiples of
  \<open>2 ^ (e - 52)\<close>. \<open>ulp m\<close> is that spacing at the magnitude \<open>m\<close>.
\<close>

function ulp :: "nat \<Rightarrow> nat" where
  "ulp m = (if m < 2 ^ 53 then 1 else 2 * ulp (m div 2))"
  by pat_completeness auto
termination
  by (relation "measure (\<lambda>m. m)") auto

declare ulp.simps [simp del]

text \<open>Rounding a magnitude to the nearest double, a tie going to the even significand.\<close>

definition roundMagnitude :: "nat \<Rightarrow> nat" where
  "roundMagnitude m =
     (let u = ulp m; q = m div u; r = m mod u
      in if 2 * r < u then q * u
         else if u < 2 * r then (q + 1) * u
         else if even q then q * u
         else (q + 1) * u)"

definition roundDouble :: "int \<Rightarrow> int" where
  "roundDouble n =
     (if n < 0 then - int (roundMagnitude (nat (- n))) else int (roundMagnitude (nat n)))"

text \<open>
  \<^verbatim>\<open>a + b\<close> and \<^verbatim>\<open>a - b\<close> on doubles that hold integers: the exact result, rounded.
  (A result beyond the largest double, about \<open>1.8e308\<close>, is \<^verbatim>\<open>Infinity\<close> in the source;
  that takes two operands of magnitude at least \<open>2 ^ 970\<close> and is left out here:
  a coordinate plus the index of a letter of a string never gets there.)
\<close>

definition jsAdd :: "int \<Rightarrow> int \<Rightarrow> int" where
  "jsAdd a b = roundDouble (a + b)"

definition jsSub :: "int \<Rightarrow> int \<Rightarrow> int" where
  "jsSub a b = roundDouble (a - b)"

subsection \<open>Geometry\<close>

fun wordLetterPosition :: "coord \<Rightarrow> direction \<Rightarrow> int \<Rightarrow> coord" where
  "wordLetterPosition (x, y, z) X index = (jsAdd x index, y, z)"
| "wordLetterPosition (x, y, z) Y index = (x, jsSub y index, z)"
| "wordLetterPosition (x, y, z) Z index = (x, y, jsAdd z index)"

text \<open>The axis steps as the specification lists them, to compare the code with.\<close>

fun axisStep :: "direction \<Rightarrow> coord" where
  "axisStep X = (1, 0, 0)"
| "axisStep Y = (0, -1, 0)"
| "axisStep Z = (0, 0, 1)"

definition plusScaled :: "coord \<Rightarrow> int \<Rightarrow> coord \<Rightarrow> coord" where
  "plusScaled s k d =
     (case s of (x, y, z) \<Rightarrow> case d of (dx, dy, dz) \<Rightarrow> (x + k * dx, y + k * dy, z + k * dz))"

text \<open>The coordinate of a block along an axis.\<close>

fun alongAxis :: "direction \<Rightarrow> coord \<Rightarrow> int" where
  "alongAxis X (x, y, z) = x"
| "alongAxis Y (x, y, z) = y"
| "alongAxis Z (x, y, z) = z"

subsection \<open>Lattice reconciler, authoring mode (\<^verbatim>\<open>CreateCrossword\<close>)\<close>

text \<open>
  The opacity is 1.0 or 0.1 and is only ever combined by \<^verbatim>\<open>Math.max\<close>; the two values
  are the rationals 1 and 1/10 here.
\<close>

record Entry =
  letter :: char
  position :: coord
  opacity :: rat
  lettersBy :: "nat list"

type_synonym Letters = "(coord \<times> Entry) list"

definition wordOpacity :: "nat option \<Rightarrow> nat \<Rightarrow> rat" where
  "wordOpacity currentWordIndex wordIndex =
     (if currentWordIndex = None \<or> currentWordIndex = Some wordIndex then 1 else 1 / 10)"

text \<open>One pass of the inner loop body: the four branches, in the order of the source.\<close>

definition placeLetter :: "nat option \<Rightarrow> nat \<Rightarrow> coord \<Rightarrow> char \<Rightarrow> Letters \<Rightarrow> Letters" where
  "placeLetter currentWordIndex wordIndex pos c letters =
     (case map_of letters pos of
        None \<Rightarrow>
          AList.update pos
            \<lparr>letter = c, position = pos,
             opacity = wordOpacity currentWordIndex wordIndex,
             lettersBy = [wordIndex]\<rparr> letters
      | Some entry \<Rightarrow>
          if letter entry = CHR '' '' then
            AList.update pos
              \<lparr>letter = c, position = pos,
               opacity = max (wordOpacity currentWordIndex wordIndex) (opacity entry),
               lettersBy = lettersBy entry @ [wordIndex]\<rparr> letters
          else if c = CHR '' '' \<or> letter entry = c then
            AList.update pos
              \<lparr>letter = letter entry, position = pos,
               opacity = max (wordOpacity currentWordIndex wordIndex) (opacity entry),
               lettersBy = lettersBy entry @ [wordIndex]\<rparr> letters
          else
            AList.update pos
              \<lparr>letter = CHR ''?'', position = pos,
               opacity = max (wordOpacity currentWordIndex wordIndex) (opacity entry),
               lettersBy = lettersBy entry @ [wordIndex]\<rparr> letters)"

text \<open>The inner \<^verbatim>\<open>for\<close> loop over the letters of one word, from index \<open>i\<close> on.\<close>

fun placeWordFrom ::
  "nat option \<Rightarrow> nat \<Rightarrow> coord \<Rightarrow> direction \<Rightarrow> nat \<Rightarrow> string \<Rightarrow> Letters \<Rightarrow> Letters" where
  "placeWordFrom cwi wordIndex st dir i [] letters = letters"
| "placeWordFrom cwi wordIndex st dir i (c # cs) letters =
     placeWordFrom cwi wordIndex st dir (Suc i) cs
       (placeLetter cwi wordIndex (wordLetterPosition st dir (int i)) c letters)"

text \<open>The outer \<^verbatim>\<open>words.forEach\<close>, from word index \<open>wordIndex\<close> on.\<close>

fun reconcileFrom :: "nat option \<Rightarrow> nat \<Rightarrow> Word list \<Rightarrow> Letters \<Rightarrow> Letters" where
  "reconcileFrom cwi wordIndex [] letters = letters"
| "reconcileFrom cwi wordIndex (w # ws) letters =
     reconcileFrom cwi (Suc wordIndex) ws
       (placeWordFrom cwi wordIndex (start w) (direction w) 0 (word w) letters)"

definition reconcile :: "nat option \<Rightarrow> Word list \<Rightarrow> Letters" where
  "reconcile cwi ws = reconcileFrom cwi 0 ws []"

definition letterAt :: "Letters \<Rightarrow> coord \<Rightarrow> char option" where
  "letterAt letters pos = map_option letter (map_of letters pos)"

definition contributorsAt :: "Letters \<Rightarrow> coord \<Rightarrow> nat list" where
  "contributorsAt letters pos = (case map_of letters pos of None \<Rightarrow> [] | Some e \<Rightarrow> lettersBy e)"

subsection \<open>Per-word validity, authoring mode (\<^verbatim>\<open>CreateCrosswordMenu\<close>)\<close>

text \<open>
  The first loop: a word with an empty description, an empty text or a space in its
  text is invalid.
\<close>

definition wordWellFormed :: "Word \<Rightarrow> bool" where
  "wordWellFormed w =
     (if length (description w) = 0 then False
      else if length (word w) = 0 then False
      else CHR '' '' \<notin> set (word w))"

text \<open>
  The second loop: every contributor of a conflicted block becomes invalid. The
  contributor lists built by \<open>reconcile\<close> only hold indices of the word list, so the array
  write never lands outside the array (\<open>reconcile_contributors_in_range\<close> below).
\<close>

fun markInvalid :: "nat list \<Rightarrow> bool list \<Rightarrow> bool list" where
  "markInvalid [] validity = validity"
| "markInvalid (i # is) validity = markInvalid is (validity[i := False])"

fun markConflicts :: "Entry list \<Rightarrow> bool list \<Rightarrow> bool list" where
  "markConflicts [] validity = validity"
| "markConflicts (e # es) validity =
     markConflicts es
       (if letter e = CHR ''?'' then markInvalid (lettersBy e) validity else validity)"

definition wordValidity :: "Word list \<Rightarrow> Letters \<Rightarrow> bool list" where
  "wordValidity ws letters = markConflicts (map snd letters) (map wordWellFormed ws)"

definition allowSave :: "Crossword \<Rightarrow> Letters \<Rightarrow> bool" where
  "allowSave cw letters =
     (list_all (\<lambda>v. v) (wordValidity (words cw) letters)
      \<and> \<not> (length (name cw) = 0 \<or> length (words cw) = 0))"

subsection \<open>The letter of one block, read off the reconciler\<close>

text \<open>
  What the four branches of \<open>placeLetter\<close> do to the letter of the block they touch:
  \<open>None\<close> is "no entry yet". \<open>letterAt_placeLetter\<close> below proves that this is the letter
  the source stores.
\<close>

fun resolve :: "char option \<Rightarrow> char \<Rightarrow> char" where
  "resolve None c = c"
| "resolve (Some l) c =
     (if l = CHR '' '' then c else if c = CHR '' '' \<or> l = c then l else CHR ''?'')"

fun resolveAll :: "char option \<Rightarrow> char list \<Rightarrow> char option" where
  "resolveAll s [] = s"
| "resolveAll s (c # cs) = resolveAll (Some (resolve s c)) cs"

text \<open>The characters one word puts on the block \<open>pos\<close>, in the order of its loop.\<close>

fun placedAt :: "coord \<Rightarrow> direction \<Rightarrow> nat \<Rightarrow> string \<Rightarrow> coord \<Rightarrow> char list" where
  "placedAt st dir i [] pos = []"
| "placedAt st dir i (c # cs) pos =
     (if wordLetterPosition st dir (int i) = pos then [c] else []) @ placedAt st dir (Suc i) cs pos"

definition allPlacedAt :: "Word list \<Rightarrow> coord \<Rightarrow> char list" where
  "allPlacedAt ws pos = concat (map (\<lambda>w. placedAt (start w) (direction w) 0 (word w) pos) ws)"

subsection \<open>Solving mode (\<^verbatim>\<open>ViewCrossword\<close>, \<^verbatim>\<open>CrosswordMenu\<close>)\<close>

text \<open>
  \<open>TypeError\<close> is what JavaScript throws on reading a property of \<^verbatim>\<open>undefined\<close>, or on
  destructuring it. \<open>NotAWord\<close> is used in one place only, \<open>modifyAt\<close> below, where undo or
  redo would build an object that lacks fields of \<^verbatim>\<open>Word\<close>.
\<close>

datatype error = TypeError | NotAWord

text \<open>The first pass: every block of every answer word gets a blank entry.\<close>

definition blankLetter :: "nat option \<Rightarrow> nat \<Rightarrow> coord \<Rightarrow> Letters \<Rightarrow> Letters" where
  "blankLetter cwi wordIndex pos letters =
     AList.update pos
       \<lparr>letter = CHR '' '', position = pos,
        opacity = (case map_of letters pos of
                     None \<Rightarrow> wordOpacity cwi wordIndex
                   | Some entry \<Rightarrow> max (wordOpacity cwi wordIndex) (opacity entry)),
        lettersBy = []\<rparr> letters"

fun blankWordFrom ::
  "nat option \<Rightarrow> nat \<Rightarrow> coord \<Rightarrow> direction \<Rightarrow> nat \<Rightarrow> string \<Rightarrow> Letters \<Rightarrow> Letters" where
  "blankWordFrom cwi wordIndex st dir i [] letters = letters"
| "blankWordFrom cwi wordIndex st dir i (c # cs) letters =
     blankWordFrom cwi wordIndex st dir (Suc i) cs
       (blankLetter cwi wordIndex (wordLetterPosition st dir (int i)) letters)"

fun answerPassFrom :: "nat option \<Rightarrow> nat \<Rightarrow> Word list \<Rightarrow> Letters \<Rightarrow> Letters" where
  "answerPassFrom cwi wordIndex [] letters = letters"
| "answerPassFrom cwi wordIndex (w # ws) letters =
     answerPassFrom cwi (Suc wordIndex) ws
       (blankWordFrom cwi wordIndex (start w) (direction w) 0 (word w) letters)"

definition answerPass :: "nat option \<Rightarrow> Word list \<Rightarrow> Letters" where
  "answerPass cwi ws = answerPassFrom cwi 0 ws []"

text \<open>
  The second pass layers the guesses. It reads \<^verbatim>\<open>entry.letter\<close> with no test for a
  missing entry, and destructures \<^verbatim>\<open>crossword.words[wordIndex]\<close> with no test either.
\<close>

definition guessLetter ::
  "nat option \<Rightarrow> nat \<Rightarrow> coord \<Rightarrow> char \<Rightarrow> Letters \<Rightarrow> error + Letters" where
  "guessLetter cwi wordIndex pos c letters =
     (case map_of letters pos of
        None \<Rightarrow> Inl TypeError
      | Some entry \<Rightarrow>
          if letter entry = CHR '' '' then
            Inr (AList.update pos
              \<lparr>letter = c, position = pos,
               opacity = max (wordOpacity cwi wordIndex) (opacity entry),
               lettersBy = lettersBy entry @ [wordIndex]\<rparr> letters)
          else if c = CHR '' '' \<or> letter entry = c then
            Inr (AList.update pos
              \<lparr>letter = letter entry, position = pos,
               opacity = max (wordOpacity cwi wordIndex) (opacity entry),
               lettersBy = lettersBy entry @ [wordIndex]\<rparr> letters)
          else
            Inr (AList.update pos
              \<lparr>letter = CHR ''?'', position = pos,
               opacity = max (wordOpacity cwi wordIndex) (opacity entry),
               lettersBy = lettersBy entry @ [wordIndex]\<rparr> letters))"

fun guessWordFrom ::
  "nat option \<Rightarrow> nat \<Rightarrow> coord \<Rightarrow> direction \<Rightarrow> nat \<Rightarrow> string \<Rightarrow> Letters \<Rightarrow> error + Letters" where
  "guessWordFrom cwi wordIndex st dir i [] letters = Inr letters"
| "guessWordFrom cwi wordIndex st dir i (c # cs) letters =
     (case guessLetter cwi wordIndex (wordLetterPosition st dir (int i)) c letters of
        Inl e \<Rightarrow> Inl e
      | Inr letters' \<Rightarrow> guessWordFrom cwi wordIndex st dir (Suc i) cs letters')"

fun guessPassFrom ::
  "nat option \<Rightarrow> Word list \<Rightarrow> nat \<Rightarrow> string list \<Rightarrow> Letters \<Rightarrow> error + Letters" where
  "guessPassFrom cwi answers wordIndex [] letters = Inr letters"
| "guessPassFrom cwi answers wordIndex (g # gs) letters =
     (if wordIndex < length answers then
        (case guessWordFrom cwi wordIndex (start (answers ! wordIndex))
                (direction (answers ! wordIndex)) 0 g letters of
           Inl e \<Rightarrow> Inl e
         | Inr letters' \<Rightarrow> guessPassFrom cwi answers (Suc wordIndex) gs letters')
      else Inl TypeError)"

definition viewLetters :: "nat option \<Rightarrow> Crossword \<Rightarrow> string list \<Rightarrow> error + Letters" where
  "viewLetters cwi cw guesses =
     guessPassFrom cwi (words cw) 0 guesses (answerPass cwi (words cw))"

text \<open>
  The solved loop. \<^verbatim>\<open>words[i]\<close> beyond the end of the guesses is \<^verbatim>\<open>undefined\<close>, which
  \<^verbatim>\<open>!=\<close> tells apart from every string.
\<close>

definition guessAt :: "string list \<Rightarrow> nat \<Rightarrow> string option" where
  "guessAt guesses i = (if i < length guesses then Some (guesses ! i) else None)"

fun solvedFrom :: "nat \<Rightarrow> Word list \<Rightarrow> string list \<Rightarrow> bool" where
  "solvedFrom i [] guesses = True"
| "solvedFrom i (w # ws) guesses =
     (if Some (word w) \<noteq> guessAt guesses i then False else solvedFrom (Suc i) ws guesses)"

definition solved :: "Crossword \<Rightarrow> string list \<Rightarrow> bool" where
  "solved cw guesses = solvedFrom 0 (words cw) guesses"

subsection \<open>The loader (\<^verbatim>\<open>OpenCrossword\<close>)\<close>

text \<open>
  \<^verbatim>\<open>charCodeAt\<close> is \<^verbatim>\<open>NaN\<close> past the end of the string (\<open>None\<close> here), and every
  comparison with \<^verbatim>\<open>NaN\<close> is false.
\<close>

definition charCodeAt :: "string \<Rightarrow> nat \<Rightarrow> nat option" where
  "charCodeAt s i = (if i < length s then Some (of_char (s ! i)) else None)"

definition numLess :: "nat option \<Rightarrow> nat option \<Rightarrow> bool" where
  "numLess a b = (case a of None \<Rightarrow> False | Some x \<Rightarrow> (case b of None \<Rightarrow> False | Some y \<Rightarrow> x < y))"

text \<open>
  The loop over the letters of one word, from index \<open>i\<close> on: \<open>None\<close> is the early
  \<^verbatim>\<open>return\<close> after \<^verbatim>\<open>setFileError("Invalid crossword")\<close>. The source tests
  \<^verbatim>\<open>word[i].charCodeAt(i)\<close>: the code unit at index \<open>i\<close> of the one-character string
  \<^verbatim>\<open>word[i]\<close>.
\<close>

fun checkWordFrom ::
  "coord \<Rightarrow> direction \<Rightarrow> nat \<Rightarrow> string \<Rightarrow> (coord \<times> char) list \<Rightarrow> (coord \<times> char) list option" where
  "checkWordFrom st dir i [] letters = Some letters"
| "checkWordFrom st dir i (c # cs) letters =
     (if numLess (charCodeAt [c] i) (charCodeAt ''A'' 0)
         \<or> numLess (charCodeAt ''Z'' 0) (charCodeAt [c] i)
      then None
      else (case map_of letters (wordLetterPosition st dir (int i)) of
              None \<Rightarrow>
                checkWordFrom st dir (Suc i) cs
                  (AList.update (wordLetterPosition st dir (int i)) c letters)
            | Some entry \<Rightarrow>
                if entry \<noteq> c then None else checkWordFrom st dir (Suc i) cs letters))"

fun checkWords :: "Word list \<Rightarrow> (coord \<times> char) list \<Rightarrow> bool" where
  "checkWords [] letters = True"
| "checkWords (w # ws) letters =
     (case checkWordFrom (start w) (direction w) 0 (word w) letters of
        None \<Rightarrow> False
      | Some letters' \<Rightarrow> checkWords ws letters')"

text \<open>
  What \<^verbatim>\<open>crosswordSchema\<close> asks beyond the types: a non-empty name, and a non-empty
  text and description for every word.
\<close>

definition crosswordSchema :: "Crossword \<Rightarrow> bool" where
  "crosswordSchema cw =
     (1 \<le> length (name cw)
      \<and> list_all (\<lambda>w. 1 \<le> length (word w) \<and> 1 \<le> length (description w)) (words cw))"

text \<open>
  The outcome of opening a file whose text was read: the message shown, and for
  \<open>Opened\<close> the crossword handed to \<^verbatim>\<open>onOpen\<close> (the message is then empty). The
  argument is the value \<^verbatim>\<open>JSON.parse\<close> returns, \<open>None\<close> when it throws or when the value
  is not of the shape of a \<^verbatim>\<open>Crossword\<close> at all.
\<close>

datatype outcome = InvalidFile | InvalidCrossword | Opened Crossword

definition openCrossword :: "Crossword option \<Rightarrow> outcome" where
  "openCrossword parsed =
     (case parsed of
        None \<Rightarrow> InvalidFile
      | Some cw \<Rightarrow>
          if \<not> crosswordSchema cw then InvalidFile
          else if checkWords (words cw) [] then Opened cw
          else InvalidCrossword)"

subsection \<open>The edit history (\<^verbatim>\<open>createCrosswordReducer\<close>)\<close>

datatype CreateCrosswordAction =
    SetCrossword Crossword
  | SetName string
  | NewWord
  | SelectWord nat
  | DeleteWord nat
  | SetOrbitCenter coord
  | ShowWordList
  | SetStart coord
  | SetDirection direction
  | SetWord string
  | SetDescription string
  | Drag coord
  | DragEnd coord
  | Undo
  | Redo

text \<open>
  The deltas. \<open>ChangeDeleteWord index word\<close>, where the word is \<^verbatim>\<open>words[action.index]\<close>
  and so \<^verbatim>\<open>undefined\<close> (\<open>None\<close>) for an index past the end; for the four field changes
  the new value comes first and the previous value second, as in the type
  \<^verbatim>\<open>WordsChange\<close>.
\<close>

datatype WordsChange =
    ChangeNewWord
  | ChangeDeleteWord nat "Word option"
  | ChangeStart coord coord
  | ChangeDirection direction direction
  | ChangeWord string string
  | ChangeDescription string string

text \<open>
  A history entry; its \<^verbatim>\<open>crossword: {name, wordsChange}\<close> is flattened into two fields.
\<close>

record History =
  h_currentWordIndex :: "nat option"
  h_orbitCenter :: coord
  h_name :: string
  h_wordsChange :: "WordsChange option"

record CreateCrosswordState =
  crossword :: EditedCrossword
  currentWordIndex :: "nat option"
  orbitCenter :: coord
  history :: "History list"
  historyIndex :: nat

definition initialState :: CreateCrosswordState where
  "initialState =
     \<lparr>crossword = \<lparr>name = [], words = []\<rparr>, currentWordIndex = None, orbitCenter = (0, 0, 0),
      history = [\<lparr>h_currentWordIndex = None, h_orbitCenter = (0, 0, 0), h_name = [],
                  h_wordsChange = None\<rparr>],
      historyIndex = 0\<rparr>"

text \<open>\<^verbatim>\<open>[...history.slice(0, historyIndex + 1), entry]\<close>\<close>

definition pushHistory :: "CreateCrosswordState \<Rightarrow> History \<Rightarrow> History list" where
  "pushHistory s entry = take (historyIndex s + 1) (history s) @ [entry]"

text \<open>\<^verbatim>\<open>[...words.slice(0, k), w, ...words.slice(k + 1)]\<close>\<close>

definition spliceWord :: "nat \<Rightarrow> Word \<Rightarrow> Word option list \<Rightarrow> Word option list" where
  "spliceWord k w ws = take k ws @ [Some w] @ drop (k + 1) ws"

text \<open>\<^verbatim>\<open>words[i]\<close>: \<^verbatim>\<open>undefined\<close> past the end.\<close>

definition slotAt :: "Word option list \<Rightarrow> nat \<Rightarrow> Word option" where
  "slotAt ws i = (if i < length ws then ws ! i else None)"

text \<open>
  \<^verbatim>\<open>words[currentWordIndex as number]\<close> with its index; \<open>None\<close> when it is \<^verbatim>\<open>undefined\<close>
  (no word selected, an index past the end, or a slot that holds \<^verbatim>\<open>undefined\<close>).
\<close>

definition currentWord :: "CreateCrosswordState \<Rightarrow> (nat \<times> Word) option" where
  "currentWord s =
     (case currentWordIndex s of
        None \<Rightarrow> None
      | Some k \<Rightarrow>
          (case slotAt (words (crossword s)) k of None \<Rightarrow> None | Some w \<Rightarrow> Some (k, w)))"

text \<open>
  The test of \<^verbatim>\<open>DeleteWord\<close> that the orbit centre lies between the start and the end
  block of a word in all three dimensions (the inner loop), and the outer loop over the
  words that skips the deleted index and stops at the first word that passes. The loop
  destructures each word it looks at, which throws on a slot holding \<^verbatim>\<open>undefined\<close>.
\<close>

definition betweenEnds :: "int \<Rightarrow> int \<Rightarrow> int \<Rightarrow> bool" where
  "betweenEnds s c e = ((s \<le> c \<and> c \<le> e) \<or> (s \<ge> c \<and> c \<ge> e))"

definition coversOrbitCenter :: "coord \<Rightarrow> Word \<Rightarrow> bool" where
  "coversOrbitCenter oc w =
     (case start w of (sx, sy, sz) \<Rightarrow>
      case wordLetterPosition (start w) (direction w) (int (length (word w)) - 1) of (ex, ey, ez) \<Rightarrow>
      case oc of (ox, oy, oz) \<Rightarrow>
        betweenEnds sx ox ex \<and> betweenEnds sy oy ey \<and> betweenEnds sz oz ez)"

fun orbitCenterHasBlockFrom :: "coord \<Rightarrow> nat \<Rightarrow> nat \<Rightarrow> Word option list \<Rightarrow> error + bool" where
  "orbitCenterHasBlockFrom oc index i [] = Inr False"
| "orbitCenterHasBlockFrom oc index i (slot # ws) =
     (if i = index then orbitCenterHasBlockFrom oc index (i + 1) ws
      else (case slot of
              None \<Rightarrow> Inl TypeError
            | Some w \<Rightarrow>
                if coversOrbitCenter oc w then Inr True
                else orbitCenterHasBlockFrom oc index (i + 1) ws))"

text \<open>The blocks a word really occupies, one per letter.\<close>

definition wordBlocks :: "Word \<Rightarrow> coord list" where
  "wordBlocks w =
     map (\<lambda>k. wordLetterPosition (start w) (direction w) (int k)) [0..<length (word w)]"

text \<open>
  A word whose start is so far inside the safe integers that no sum or difference of
  a coordinate of its start and an index up to its length is rounded.
\<close>

definition safeWord :: "Word \<Rightarrow> bool" where
  "safeWord w =
     (case start w of (x, y, z) \<Rightarrow>
        \<bar>x\<bar> + int (length (word w)) \<le> 2 ^ 53
        \<and> \<bar>y\<bar> + int (length (word w)) \<le> 2 ^ 53
        \<and> \<bar>z\<bar> + int (length (word w)) \<le> 2 ^ 53)"

text \<open>
  Undo and redo rewrite one word of the array at the index a history entry stores:
  \<^verbatim>\<open>{...newWords[k], field: value}\<close>. When that index is \<^verbatim>\<open>null\<close> or past the end, or
  the slot holds \<^verbatim>\<open>undefined\<close>, the source spreads \<^verbatim>\<open>undefined\<close> and puts an object with
  a single field into the array. Such an object is no value of this model, which stops
  there with \<open>NotAWord\<close>. The history-recording actions never come here: they throw
  when the selected word is \<^verbatim>\<open>undefined\<close> (\<open>recordsHistory_never_NotAWord\<close>).
\<close>

definition modifyAt ::
  "nat option \<Rightarrow> (Word \<Rightarrow> Word) \<Rightarrow> Word option list \<Rightarrow> error + Word option list" where
  "modifyAt index f ws =
     (case index of
        None \<Rightarrow> Inl NotAWord
      | Some k \<Rightarrow>
          (case slotAt ws k of
             None \<Rightarrow> Inl NotAWord
           | Some w \<Rightarrow> Inr (spliceWord k (f w) ws)))"

definition undoWords :: "History \<Rightarrow> Word option list \<Rightarrow> error + Word option list" where
  "undoWords entry ws =
     (case h_wordsChange entry of
        None \<Rightarrow> Inr ws
      | Some ChangeNewWord \<Rightarrow> Inr (take (length ws - 1) ws)
      | Some (ChangeDeleteWord index w) \<Rightarrow> Inr (take index ws @ [w] @ drop index ws)
      | Some (ChangeStart st previousStart) \<Rightarrow>
          modifyAt (h_currentWordIndex entry) (\<lambda>w. w\<lparr>start := previousStart\<rparr>) ws
      | Some (ChangeDirection dir previousDirection) \<Rightarrow>
          modifyAt (h_currentWordIndex entry) (\<lambda>w. w\<lparr>direction := previousDirection\<rparr>) ws
      | Some (ChangeWord text previousWord) \<Rightarrow>
          modifyAt (h_currentWordIndex entry) (\<lambda>w. w\<lparr>word := previousWord\<rparr>) ws
      | Some (ChangeDescription desc previousDescription) \<Rightarrow>
          modifyAt (h_currentWordIndex entry) (\<lambda>w. w\<lparr>description := previousDescription\<rparr>) ws)"

definition redoWords :: "History \<Rightarrow> Word option list \<Rightarrow> error + Word option list" where
  "redoWords entry ws =
     (case h_wordsChange entry of
        None \<Rightarrow> Inr ws
      | Some ChangeNewWord \<Rightarrow>
          Inr (ws @ [Some \<lparr>word = [], direction = X, start = h_orbitCenter entry,
                            description = []\<rparr>])
      | Some (ChangeDeleteWord index w) \<Rightarrow> Inr (take index ws @ drop (index + 1) ws)
      | Some (ChangeStart st previousStart) \<Rightarrow>
          modifyAt (h_currentWordIndex entry) (\<lambda>w. w\<lparr>start := st\<rparr>) ws
      | Some (ChangeDirection dir previousDirection) \<Rightarrow>
          modifyAt (h_currentWordIndex entry) (\<lambda>w. w\<lparr>direction := dir\<rparr>) ws
      | Some (ChangeWord text previousWord) \<Rightarrow>
          modifyAt (h_currentWordIndex entry) (\<lambda>w. w\<lparr>word := text\<rparr>) ws
      | Some (ChangeDescription desc previousDescription) \<Rightarrow>
          modifyAt (h_currentWordIndex entry) (\<lambda>w. w\<lparr>description := desc\<rparr>) ws)"

text \<open>
  The reducer, one equation per \<^verbatim>\<open>case\<close> of its \<^verbatim>\<open>switch\<close>. Word indices are array
  indices (\<open>nat\<close>). Destructuring \<^verbatim>\<open>words[...]\<close> or \<^verbatim>\<open>history[...]\<close> when it is
  \<^verbatim>\<open>undefined\<close> throws (\<open>TypeError\<close>). \<^verbatim>\<open>DeleteWord\<close> has no test of its index: with an
  index past the end it leaves the word array as it is and records a history entry whose
  deleted word is \<^verbatim>\<open>undefined\<close>.
\<close>

fun reducer :: "CreateCrosswordState \<Rightarrow> CreateCrosswordAction \<Rightarrow> error + CreateCrosswordState" where
  "reducer s (SetCrossword cw) =
     Inr \<lparr>crossword = \<lparr>name = name cw, words = map Some (words cw)\<rparr>,
          currentWordIndex = None, orbitCenter = (0, 0, 0),
          history = [\<lparr>h_currentWordIndex = None, h_orbitCenter = (0, 0, 0), h_name = name cw,
                      h_wordsChange = None\<rparr>],
          historyIndex = 0\<rparr>"
| "reducer s (SetName n) =
     Inr (s\<lparr>crossword := \<lparr>name = n, words = words (crossword s)\<rparr>,
            history := pushHistory s
              \<lparr>h_currentWordIndex = currentWordIndex s, h_orbitCenter = orbitCenter s,
               h_name = n, h_wordsChange = None\<rparr>,
            historyIndex := historyIndex s + 1\<rparr>)"
| "reducer s NewWord =
     Inr (s\<lparr>currentWordIndex := Some (length (words (crossword s))),
            crossword := \<lparr>name = name (crossword s),
                           words = words (crossword s) @
                             [Some \<lparr>word = [], direction = X, start = orbitCenter s,
                                    description = []\<rparr>]\<rparr>,
            history := pushHistory s
              \<lparr>h_currentWordIndex = Some (length (words (crossword s))),
               h_orbitCenter = orbitCenter s, h_name = name (crossword s),
               h_wordsChange = Some ChangeNewWord\<rparr>,
            historyIndex := historyIndex s + 1\<rparr>)"
| "reducer s (SelectWord index) =
     (case slotAt (words (crossword s)) index of
        None \<Rightarrow> Inl TypeError
      | Some w \<Rightarrow>
          (let centerBlockPosition =
                 wordLetterPosition (start w) (direction w) (int (length (word w) div 2))
           in Inr (s\<lparr>currentWordIndex := Some index,
                     orbitCenter := centerBlockPosition,
                     history := pushHistory s
                       \<lparr>h_currentWordIndex = Some index, h_orbitCenter = centerBlockPosition,
                        h_name = name (crossword s), h_wordsChange = None\<rparr>,
                     historyIndex := historyIndex s + 1\<rparr>)))"
| "reducer s (DeleteWord index) =
     (case orbitCenterHasBlockFrom (orbitCenter s) index 0 (words (crossword s)) of
        Inl e \<Rightarrow> Inl e
      | Inr orbitCenterHasBlock \<Rightarrow>
          (let ws = words (crossword s);
               newOrbitCenter = (if orbitCenterHasBlock then orbitCenter s else (0, 0, 0))
           in Inr (s\<lparr>orbitCenter := newOrbitCenter,
                     crossword := \<lparr>name = name (crossword s),
                                    words = take index ws @ drop (index + 1) ws\<rparr>,
                     history := pushHistory s
                       \<lparr>h_currentWordIndex = currentWordIndex s, h_orbitCenter = newOrbitCenter,
                        h_name = name (crossword s),
                        h_wordsChange = Some (ChangeDeleteWord index (slotAt ws index))\<rparr>,
                     historyIndex := historyIndex s + 1\<rparr>)))"
| "reducer s (SetOrbitCenter pos) = Inr (s\<lparr>orbitCenter := pos\<rparr>)"
| "reducer s ShowWordList =
     Inr (s\<lparr>currentWordIndex := None,
            history := pushHistory s
              \<lparr>h_currentWordIndex = None, h_orbitCenter = orbitCenter s,
               h_name = name (crossword s), h_wordsChange = None\<rparr>,
            historyIndex := historyIndex s + 1\<rparr>)"
| "reducer s (SetStart pos) =
     (case currentWord s of
        None \<Rightarrow> Inl TypeError
      | Some (k, w) \<Rightarrow>
          (let newOrbitCenter = wordLetterPosition pos (direction w) (int (length (word w) div 2))
           in Inr (s\<lparr>orbitCenter := newOrbitCenter,
                     crossword := \<lparr>name = name (crossword s),
                                    words = spliceWord k (w\<lparr>start := pos\<rparr>) (words (crossword s))\<rparr>,
                     history := pushHistory s
                       \<lparr>h_currentWordIndex = currentWordIndex s, h_orbitCenter = newOrbitCenter,
                        h_name = name (crossword s),
                        h_wordsChange = Some (ChangeStart pos (start w))\<rparr>,
                     historyIndex := historyIndex s + 1\<rparr>)))"
| "reducer s (SetDirection dir) =
     (case currentWord s of
        None \<Rightarrow> Inl TypeError
      | Some (k, w) \<Rightarrow>
          (let newOrbitCenter = wordLetterPosition (start w) dir (int (length (word w) div 2))
           in Inr (s\<lparr>orbitCenter := newOrbitCenter,
                     crossword := \<lparr>name = name (crossword s),
                                    words = spliceWord k (w\<lparr>direction := dir\<rparr>) (words (crossword s))\<rparr>,
                     history := pushHistory s
                       \<lparr>h_currentWordIndex = currentWordIndex s, h_orbitCenter = newOrbitCenter,
                        h_name = name (crossword s),
                        h_wordsChange = Some (ChangeDirection dir (direction w))\<rparr>,
                     historyIndex := historyIndex s + 1\<rparr>)))"
| "reducer s (SetWord text) =
     (case currentWord s of
        None \<Rightarrow> Inl TypeError
      | Some (k, w) \<Rightarrow>
          (let newOrbitCenter =
                 wordLetterPosition (start w) (direction w) (int (length text div 2))
           in Inr (s\<lparr>orbitCenter := newOrbitCenter,
                     crossword := \<lparr>name = name (crossword s),
                                    words = spliceWord k (w\<lparr>word := text\<rparr>) (words (crossword s))\<rparr>,
                     history := pushHistory s
                       \<lparr>h_currentWordIndex = currentWordIndex s, h_orbitCenter = newOrbitCenter,
                        h_name = name (crossword s),
                        h_wordsChange = Some (ChangeWord text (word w))\<rparr>,
                     historyIndex := historyIndex s + 1\<rparr>)))"
| "reducer s (SetDescription desc) =
     (case currentWord s of
        None \<Rightarrow> Inl TypeError
      | Some (k, w) \<Rightarrow>
          Inr (s\<lparr>crossword := \<lparr>name = name (crossword s),
                                 words = spliceWord k (w\<lparr>description := desc\<rparr>) (words (crossword s))\<rparr>,
                 history := pushHistory s
                   \<lparr>h_currentWordIndex = currentWordIndex s, h_orbitCenter = orbitCenter s,
                    h_name = name (crossword s),
                    h_wordsChange = Some (ChangeDescription desc (description w))\<rparr>,
                 historyIndex := historyIndex s + 1\<rparr>))"
| "reducer s (Drag center) =
     (case currentWord s of
        None \<Rightarrow> Inl TypeError
      | Some (k, w) \<Rightarrow>
          (let newStart = wordLetterPosition center (direction w) (- int (length (word w) div 2))
           in Inr (s\<lparr>crossword := \<lparr>name = name (crossword s),
                                    words = spliceWord k (w\<lparr>start := newStart\<rparr>) (words (crossword s))\<rparr>\<rparr>)))"
| "reducer s (DragEnd center) =
     (case currentWord s of
        None \<Rightarrow> Inl TypeError
      | Some (k, w) \<Rightarrow>
          (let previousStart =
                 wordLetterPosition (orbitCenter s) (direction w) (- int (length (word w) div 2));
               newStart = wordLetterPosition center (direction w) (- int (length (word w) div 2))
           in Inr (s\<lparr>orbitCenter := center,
                     crossword := \<lparr>name = name (crossword s),
                                    words = spliceWord k (w\<lparr>start := newStart\<rparr>) (words (crossword s))\<rparr>,
                     history := pushHistory s
                       \<lparr>h_currentWordIndex = currentWordIndex s, h_orbitCenter = center,
                        h_name = name (crossword s),
                        h_wordsChange = Some (ChangeStart newStart previousStart)\<rparr>,
                     historyIndex := historyIndex s + 1\<rparr>)))"
| "reducer s Undo =
     (if historyIndex s = 0 then Inr s
      else if historyIndex s < length (history s) then
        (case undoWords (history s ! historyIndex s) (words (crossword s)) of
           Inl e \<Rightarrow> Inl e
         | Inr newWords \<Rightarrow>
             Inr \<lparr>crossword = \<lparr>name = h_name (history s ! (historyIndex s - 1)), words = newWords\<rparr>,
                  currentWordIndex = h_currentWordIndex (history s ! (historyIndex s - 1)),
                  orbitCenter = h_orbitCenter (history s ! (historyIndex s - 1)),
                  history = history s,
                  historyIndex = historyIndex s - 1\<rparr>)
      else Inl TypeError)"
| "reducer s Redo =
     (if historyIndex s + 1 = length (history s) then Inr s
      else if historyIndex s + 1 < length (history s) then
        (case redoWords (history s ! (historyIndex s + 1)) (words (crossword s)) of
           Inl e \<Rightarrow> Inl e
         | Inr newWords \<Rightarrow>
             Inr \<lparr>crossword = \<lparr>name = h_name (history s ! (historyIndex s + 1)), words = newWords\<rparr>,
                  currentWordIndex = h_currentWordIndex (history s ! (historyIndex s + 1)),
                  orbitCenter = h_orbitCenter (history s ! (historyIndex s + 1)),
                  history = history s,
                  historyIndex = historyIndex s + 1\<rparr>)
      else Inl TypeError)"

text \<open>Dispatching a list of actions in turn; the first error ends the run.\<close>

fun dispatchAll :: "CreateCrosswordState \<Rightarrow> CreateCrosswordAction list \<Rightarrow> error + CreateCrosswordState" where
  "dispatchAll s [] = Inr s"
| "dispatchAll s (a # as) =
     (case reducer s a of Inl e \<Rightarrow> Inl e | Inr s' \<Rightarrow> dispatchAll s' as)"


text \<open>
  The structural edits of the specification: new word, delete word, change of start,
  direction, text, description or name, and the release of a drag.
\<close>

fun structuralEdit :: "CreateCrosswordAction \<Rightarrow> bool" where
  "structuralEdit (SetName n) = True"
| "structuralEdit NewWord = True"
| "structuralEdit (DeleteWord index) = True"
| "structuralEdit (SetStart pos) = True"
| "structuralEdit (SetDirection dir) = True"
| "structuralEdit (SetWord text) = True"
| "structuralEdit (SetDescription desc) = True"
| "structuralEdit (DragEnd center) = True"
| "structuralEdit a = False"

text \<open>
  The actions that record a history entry: the structural edits, the two selection
  changes, and \<^verbatim>\<open>SetCrossword\<close> (which starts a fresh history). The others are
  \<^verbatim>\<open>SetOrbitCenter\<close>, \<^verbatim>\<open>Drag\<close>, \<^verbatim>\<open>Undo\<close> and \<^verbatim>\<open>Redo\<close>.
\<close>

fun recordsHistory :: "CreateCrosswordAction \<Rightarrow> bool" where
  "recordsHistory (SetOrbitCenter pos) = False"
| "recordsHistory (Drag center) = False"
| "recordsHistory Undo = False"
| "recordsHistory Redo = False"
| "recordsHistory a = True"



text \<open>\<open>n\<close> times \<^verbatim>\<open>Redo\<close>.\<close>

fun redoTimes :: "nat \<Rightarrow> CreateCrosswordState \<Rightarrow> error + CreateCrosswordState" where
  "redoTimes 0 s = Inr s"
| "redoTimes (Suc n) s = (case reducer s Redo of Inl e \<Rightarrow> Inl e | Inr s' \<Rightarrow> redoTimes n s')"

section \<open>Theorems\<close>

subsection \<open>Numbers and geometry\<close>

lemma ulp_below: "m < 2 ^ 53 \<Longrightarrow> ulp m = 1"
  by (subst ulp.simps) simp

lemma ulp_next: "2 ^ 53 \<le> m \<Longrightarrow> m < 2 ^ 54 \<Longrightarrow> ulp m = 2"
  by (subst ulp.simps) (simp add: ulp_below)

lemma roundMagnitude_safe: "m \<le> 2 ^ 53 \<Longrightarrow> roundMagnitude m = m"
proof (cases "m < 2 ^ 53")
  case True
  then show ?thesis by (simp add: roundMagnitude_def ulp_below)
next
  case False
  assume "m \<le> 2 ^ 53"
  with False have m: "m = 2 ^ 53" by simp
  have "ulp m = 2" by (rule ulp_next) (simp_all add: m)
  then show ?thesis by (simp add: roundMagnitude_def m)
qed

lemma roundDouble_safe: "\<bar>n\<bar> \<le> 2 ^ 53 \<Longrightarrow> roundDouble n = n"
  by (auto simp: roundDouble_def roundMagnitude_safe nat_le_iff)

lemma jsAdd_safe [simp]: "\<bar>a + b\<bar> \<le> 2 ^ 53 \<Longrightarrow> jsAdd a b = a + b"
  by (simp add: jsAdd_def roundDouble_safe)

lemma jsSub_safe [simp]: "\<bar>a - b\<bar> \<le> 2 ^ 53 \<Longrightarrow> jsSub a b = a - b"
  by (simp add: jsSub_def roundDouble_safe)

text \<open>
  C8, as specified: for every start coordinate, axis and integer index,
  \<open>wordLetterPosition\<close> is the start plus index times the axis step, and the start of a
  word is got back from its centre block. With doubles this fails beyond the safe
  integers: from x = \<open>2 ^ 53 - 1\<close> the block of index 2 along X is at \<open>2 ^ 53\<close>, not
  \<open>2 ^ 53 + 1\<close>, and going two back from there gives \<open>2 ^ 53 - 2\<close>, not the start.
\<close>

theorem wordLetterPosition_rounds_beyond_safe_integers:
  "wordLetterPosition (9007199254740991, 0, 0) X 2 = (9007199254740992, 0, 0)
   \<and> plusScaled (9007199254740991, 0, 0) 2 (axisStep X) = (9007199254740993, 0, 0)
   \<and> wordLetterPosition (9007199254740991, 0, 0) X 2
        \<noteq> plusScaled (9007199254740991, 0, 0) 2 (axisStep X)
   \<and> wordLetterPosition (wordLetterPosition (9007199254740991, 0, 0) X (int (4 div 2))) X
        (- int (4 div 2)) = (9007199254740990, 0, 0)"
  by (simp add: plusScaled_def jsAdd_def roundDouble_def roundMagnitude_def ulp_next ulp_below)

text \<open>
  C8, amended. For every start coordinate, axis and integer index (negative ones too)
  such that the coordinate of the result along the axis is a safe integer (of magnitude
  at most \<open>2 ^ 53\<close>), \<open>wordLetterPosition start axis index\<close> is the start plus index times
  the axis step, the steps being X: (+1,0,0), Y: (0,-1,0), Z: (0,0,+1). On the Y axis
  the y-coordinate goes down as the index goes up. When the start and the centre block
  both have a safe coordinate along the axis, the start of a word of length \<open>len\<close> is got
  back from its centre block with the index \<open>- (len div 2)\<close>.
\<close>

theorem wordLetterPosition_is_start_plus_index_step:
  "(\<bar>alongAxis axis (plusScaled s i (axisStep axis))\<bar> \<le> 2 ^ 53 \<longrightarrow>
      wordLetterPosition s axis i = plusScaled s i (axisStep axis))
   \<and> axisStep X = (1, 0, 0) \<and> axisStep Y = (0, -1, 0) \<and> axisStep Z = (0, 0, 1)
   \<and> (\<bar>y - i\<bar> \<le> 2 ^ 53 \<longrightarrow> wordLetterPosition (x, y, z) Y i = (x, y - i, z))
   \<and> (\<bar>alongAxis axis s\<bar> \<le> 2 ^ 53
       \<and> \<bar>alongAxis axis (plusScaled s (int (len div 2)) (axisStep axis))\<bar> \<le> 2 ^ 53 \<longrightarrow>
      wordLetterPosition (wordLetterPosition s axis (int (len div 2))) axis
        (- int (len div 2)) = s)"
  by (cases s; cases axis) (simp_all add: plusScaled_def)

theorem wordLetterPosition_is_start_plus_index_step_witness:
  "wordLetterPosition (4, 1, 0) Y 3 = plusScaled (4, 1, 0) 3 (axisStep Y)
   \<and> wordLetterPosition (4, 1, 0) Y 3 = (4, -2, 0)
   \<and> wordLetterPosition (2, 0, 0) X (- 2) = (0, 0, 0)
   \<and> wordLetterPosition (wordLetterPosition (0, 0, 0) X (int (5 div 2))) X (- int (5 div 2))
       = (0, 0, 0)"
  using
    wordLetterPosition_is_start_plus_index_step
      [where axis = Y and s = "(4, 1, 0)" and i = 3 and x = 4 and y = 1 and z = 0]
    wordLetterPosition_is_start_plus_index_step [where axis = X and s = "(2, 0, 0)" and i = "- 2"]
    wordLetterPosition_is_start_plus_index_step [where axis = X and s = "(0, 0, 0)" and len = 5]
  by (simp add: plusScaled_def)

subsection \<open>The reconciler: letter and contributors of a block\<close>

lemma letterAt_placeLetter:
  "letterAt (placeLetter cwi wi q c L) p =
     (if p = q then Some (resolve (letterAt L q) c) else letterAt L p)"
  by (auto simp: letterAt_def placeLetter_def update_conv' split: option.splits)

lemma contributorsAt_placeLetter:
  "contributorsAt (placeLetter cwi wi q c L) p =
     (if p = q then contributorsAt L q @ [wi] else contributorsAt L p)"
  by (auto simp: contributorsAt_def placeLetter_def update_conv' split: option.splits)

lemma resolveAll_append: "resolveAll s (xs @ ys) = resolveAll (resolveAll s xs) ys"
  by (induction xs arbitrary: s) auto

lemma letterAt_placeWordFrom:
  "letterAt (placeWordFrom cwi wi st dir i cs L) p = resolveAll (letterAt L p) (placedAt st dir i cs p)"
  by (induction cs arbitrary: i L) (auto simp: letterAt_placeLetter)

lemma letterAt_reconcileFrom:
  "letterAt (reconcileFrom cwi wi ws L) p = resolveAll (letterAt L p) (allPlacedAt ws p)"
  by (induction ws arbitrary: wi L) (auto simp: letterAt_placeWordFrom allPlacedAt_def resolveAll_append)

lemma letterAt_reconcile:
  "letterAt (reconcile cwi ws) p = resolveAll None (allPlacedAt ws p)"
  by (simp add: reconcile_def letterAt_reconcileFrom) (simp add: letterAt_def)

lemma resolve_commute:
  "resolve (Some (resolve s c)) d = resolve (Some (resolve s d)) c"
  by (cases s) auto

lemma resolveAll_fold: "resolveAll s cs = fold (\<lambda>c s. Some (resolve s c)) cs s"
  by (induction cs arbitrary: s) auto

lemma resolve_step_commute:
  "(\<lambda>s. Some (resolve s c)) \<circ> (\<lambda>s. Some (resolve s d)) =
   (\<lambda>s. Some (resolve s d)) \<circ> (\<lambda>s. Some (resolve s c))"
proof (rule ext)
  fix s
  show "((\<lambda>s. Some (resolve s c)) \<circ> (\<lambda>s. Some (resolve s d))) s =
        ((\<lambda>s. Some (resolve s d)) \<circ> (\<lambda>s. Some (resolve s c))) s"
    using resolve_commute[of s d c] by simp
qed

lemma resolveAll_mset:
  assumes "mset cs = mset ds"
  shows "resolveAll s cs = resolveAll s ds"
proof -
  have "fold (\<lambda>c s. Some (resolve s c)) cs = fold (\<lambda>c s. Some (resolve s c)) ds"
    by (rule fold_multiset_equiv[OF _ assms]) (rule resolve_step_commute)
  then show ?thesis by (simp add: resolveAll_fold)
qed

lemma mset_allPlacedAt:
  assumes "mset ws = mset ws'"
  shows "mset (allPlacedAt ws p) = mset (allPlacedAt ws' p)"
proof -
  let ?f = "\<lambda>w. mset (placedAt (start w) (direction w) 0 (word w) p)"
  have "mset (allPlacedAt us p) = sum_mset (image_mset ?f (mset us))" for us
    by (induction us) (auto simp: allPlacedAt_def)
  then show ?thesis using assms by simp
qed

lemma resolveAll_conflict_sticky: "resolveAll (Some CHR ''?'') cs = Some CHR ''?''"
  by (induction cs) auto

lemma resolveAll_differs:
  "c \<in> set cs \<Longrightarrow> c \<noteq> CHR '' '' \<Longrightarrow> l \<noteq> CHR '' '' \<Longrightarrow> c \<noteq> l \<Longrightarrow>
   resolveAll (Some l) cs = Some CHR ''?''"
  by (induction cs arbitrary: l) (auto simp: resolveAll_conflict_sticky)

lemma resolveAll_two_letters:
  assumes "c1 \<in> set cs" "c2 \<in> set cs" "c1 \<noteq> CHR '' ''" "c2 \<noteq> CHR '' ''" "c1 \<noteq> c2"
  shows "resolveAll s cs = Some CHR ''?''"
  using assms
proof (induction cs arbitrary: s)
  case Nil
  then show ?case by simp
next
  case (Cons d cs)
  show ?case
  proof (cases "resolve s d = CHR '' ''")
    case True
    then have "d = CHR '' ''" by (cases s) (auto split: if_splits)
    with Cons.prems have "c1 \<in> set cs" "c2 \<in> set cs" by auto
    then show ?thesis using Cons.IH[of "Some (resolve s d)"] Cons.prems by simp
  next
    case False
    let ?l = "resolve s d"
    have "resolveAll (Some ?l) (d # cs) = resolveAll (Some ?l) cs"
      by (cases s) auto
    moreover have "c1 \<noteq> ?l \<or> c2 \<noteq> ?l" using Cons.prems by auto
    ultimately have "resolveAll (Some ?l) cs = Some CHR ''?''"
      using resolveAll_differs[of c1 "d # cs" ?l] resolveAll_differs[of c2 "d # cs" ?l] Cons.prems False
      by auto
    then show ?thesis by simp
  qed
qed

lemma placedAt_member:
  "k < length cs \<Longrightarrow> wordLetterPosition st dir (int (i + k)) = p \<Longrightarrow>
   cs ! k \<in> set (placedAt st dir i cs p)"
proof (induction cs arbitrary: i k)
  case Nil
  then show ?case by simp
next
  case (Cons c cs)
  show ?case
  proof (cases k)
    case 0
    with Cons.prems show ?thesis by simp
  next
    case (Suc k')
    with Cons.prems have "cs ! k' \<in> set (placedAt st dir (Suc i) cs p)"
      using Cons.IH[of k' "Suc i"] by simp
    with Suc show ?thesis by simp
  qed
qed

lemma allPlacedAt_member:
  assumes "i < length ws" "k < length (word (ws ! i))"
    "wordLetterPosition (start (ws ! i)) (direction (ws ! i)) (int k) = p"
  shows "word (ws ! i) ! k \<in> set (allPlacedAt ws p)"
proof -
  have "word (ws ! i) ! k \<in> set (placedAt (start (ws ! i)) (direction (ws ! i)) 0 (word (ws ! i)) p)"
    using placedAt_member[of k "word (ws ! i)" "start (ws ! i)" "direction (ws ! i)" 0 p] assms
    by simp
  moreover have "ws ! i \<in> set ws" using assms(1) by simp
  ultimately show ?thesis unfolding allPlacedAt_def by auto
qed

lemma contributorsAt_placeWordFrom:
  "contributorsAt (placeWordFrom cwi wi st dir i cs L) p =
     contributorsAt L p @ replicate (length (placedAt st dir i cs p)) wi"
  by (induction cs arbitrary: i L) (auto simp: contributorsAt_placeLetter replicate_app_Cons_same)

lemma contributorsAt_reconcileFrom_mono:
  "set (contributorsAt L p) \<subseteq> set (contributorsAt (reconcileFrom cwi wi ws L) p)"
proof (induction ws arbitrary: wi L)
  case Nil
  then show ?case by simp
next
  case (Cons w ws)
  have "set (contributorsAt L p) \<subseteq>
        set (contributorsAt (placeWordFrom cwi wi (start w) (direction w) 0 (word w) L) p)"
    by (simp add: contributorsAt_placeWordFrom)
  also have "\<dots> \<subseteq> set (contributorsAt (reconcileFrom cwi (Suc wi) ws
        (placeWordFrom cwi wi (start w) (direction w) 0 (word w) L)) p)"
    by (rule Cons.IH)
  finally show ?case by simp
qed

lemma contributorsAt_reconcileFrom_member:
  "j < length ws \<Longrightarrow> placedAt (start (ws ! j)) (direction (ws ! j)) 0 (word (ws ! j)) p \<noteq> [] \<Longrightarrow>
   wi + j \<in> set (contributorsAt (reconcileFrom cwi wi ws L) p)"
proof (induction ws arbitrary: wi L j)
  case Nil
  then show ?case by simp
next
  case (Cons w ws)
  let ?L = "placeWordFrom cwi wi (start w) (direction w) 0 (word w) L"
  show ?case
  proof (cases j)
    case 0
    with Cons.prems have "wi \<in> set (contributorsAt ?L p)"
      by (simp add: contributorsAt_placeWordFrom)
    then have "wi \<in> set (contributorsAt (reconcileFrom cwi (Suc wi) ws ?L) p)"
      using contributorsAt_reconcileFrom_mono by blast
    with 0 show ?thesis by simp
  next
    case (Suc j')
    with Cons.prems have "Suc wi + j' \<in> set (contributorsAt (reconcileFrom cwi (Suc wi) ws ?L) p)"
      using Cons.IH[of j' "Suc wi" ?L] by simp
    with Suc show ?thesis by simp
  qed
qed

lemma contributorsAt_reconcileFrom_range:
  "m \<in> set (contributorsAt (reconcileFrom cwi wi ws L) p) \<Longrightarrow>
   m \<in> set (contributorsAt L p) \<or> (wi \<le> m \<and> m < wi + length ws)"
proof (induction ws arbitrary: wi L)
  case Nil
  then show ?case by simp
next
  case (Cons w ws)
  let ?L = "placeWordFrom cwi wi (start w) (direction w) 0 (word w) L"
  from Cons.prems have "m \<in> set (contributorsAt ?L p) \<or> (Suc wi \<le> m \<and> m < Suc wi + length ws)"
    using Cons.IH[of "Suc wi" ?L] by simp
  then show ?case
    by (auto simp: contributorsAt_placeWordFrom)
qed

lemma reconcile_contributors_in_range:
  "m \<in> set (contributorsAt (reconcile cwi ws) p) \<Longrightarrow> m < length ws"
  using contributorsAt_reconcileFrom_range[of m cwi 0 ws "[]" p]
  by (simp add: reconcile_def) (simp add: contributorsAt_def)

lemma reconcile_contributor:
  assumes "i < length ws" "k < length (word (ws ! i))"
    "wordLetterPosition (start (ws ! i)) (direction (ws ! i)) (int k) = p"
  shows "i \<in> set (contributorsAt (reconcile cwi ws) p)"
proof -
  have "word (ws ! i) ! k \<in> set (placedAt (start (ws ! i)) (direction (ws ! i)) 0 (word (ws ! i)) p)"
    using placedAt_member[of k "word (ws ! i)" "start (ws ! i)" "direction (ws ! i)" 0 p] assms
    by simp
  then have "placedAt (start (ws ! i)) (direction (ws ! i)) 0 (word (ws ! i)) p \<noteq> []"
    by auto
  then show ?thesis
    using contributorsAt_reconcileFrom_member[of i ws p 0 cwi "[]"] assms(1)
    by (simp add: reconcile_def)
qed

subsection \<open>Conflicts and validity\<close>

lemma length_markInvalid: "length (markInvalid is v) = length v"
  by (induction "is" arbitrary: v) auto

lemma markInvalid_keeps_false: "m < length v \<Longrightarrow> \<not> v ! m \<Longrightarrow> \<not> markInvalid is v ! m"
proof (induction "is" arbitrary: v)
  case Nil
  then show ?case by simp
next
  case (Cons a "is")
  have "m < length (v[a := False])" "\<not> v[a := False] ! m"
    using Cons.prems by (cases "a < length v"; simp add: nth_list_update)+
  then have "\<not> markInvalid is (v[a := False]) ! m" by (rule Cons.IH)
  then show ?case by simp
qed

lemma markInvalid_member: "m \<in> set is \<Longrightarrow> m < length v \<Longrightarrow> \<not> markInvalid is v ! m"
  by (induction "is" arbitrary: v) (auto simp: markInvalid_keeps_false)

lemma length_markConflicts: "length (markConflicts es v) = length v"
  by (induction es arbitrary: v) (auto simp: length_markInvalid)

lemma markConflicts_keeps_false: "m < length v \<Longrightarrow> \<not> v ! m \<Longrightarrow> \<not> markConflicts es v ! m"
  by (induction es arbitrary: v) (auto simp: markInvalid_keeps_false length_markInvalid)

lemma markConflicts_member:
  "e \<in> set es \<Longrightarrow> letter e = CHR ''?'' \<Longrightarrow> m \<in> set (lettersBy e) \<Longrightarrow> m < length v \<Longrightarrow>
   \<not> markConflicts es v ! m"
  by (induction es arbitrary: v)
     (auto simp: markInvalid_member markConflicts_keeps_false length_markInvalid)

lemma wordValidity_conflict:
  assumes "letterAt letters p = Some CHR ''?''" "m \<in> set (contributorsAt letters p)" "m < length ws"
  shows "\<not> wordValidity ws letters ! m"
proof -
  from assms(1) obtain e where e: "map_of letters p = Some e" "letter e = CHR ''?''"
    by (auto simp: letterAt_def)
  then have "e \<in> set (map snd letters)"
    by (force dest: map_of_SomeD)
  moreover have "m \<in> set (lettersBy e)" using assms(2) e by (simp add: contributorsAt_def)
  ultimately show ?thesis
    using markConflicts_member[of e "map snd letters" m "map wordWellFormed ws"] e assms(3)
    by (simp add: wordValidity_def)
qed

text \<open>
  C1. For every word list and every two words that put differing non-blank letters on
  the same block, the reconciled letter of that block is the conflict marker "?", both
  words are among the block's contributors, and the authoring-mode validity computation
  marks every contributor of that block invalid: both words, and anyone else on the block.
\<close>

theorem conflict_invalidates_every_contributor:
  assumes "i < length ws" and "j < length ws"
    and "k < length (word (ws ! i))" and "l < length (word (ws ! j))"
    and "wordLetterPosition (start (ws ! i)) (direction (ws ! i)) (int k) = p"
    and "wordLetterPosition (start (ws ! j)) (direction (ws ! j)) (int l) = p"
    and "word (ws ! i) ! k \<noteq> CHR '' ''" and "word (ws ! j) ! l \<noteq> CHR '' ''"
    and "word (ws ! i) ! k \<noteq> word (ws ! j) ! l"
  shows "letterAt (reconcile cwi ws) p = Some CHR ''?''
    \<and> i \<in> set (contributorsAt (reconcile cwi ws) p)
    \<and> j \<in> set (contributorsAt (reconcile cwi ws) p)
    \<and> \<not> wordValidity ws (reconcile cwi ws) ! i
    \<and> \<not> wordValidity ws (reconcile cwi ws) ! j
    \<and> (\<forall>m \<in> set (contributorsAt (reconcile cwi ws) p).
          m < length ws \<and> \<not> wordValidity ws (reconcile cwi ws) ! m)"
proof -
  let ?L = "reconcile cwi ws"
  have c: "letterAt ?L p = Some CHR ''?''"
    unfolding letterAt_reconcile
    using resolveAll_two_letters[of "word (ws ! i) ! k" "allPlacedAt ws p" "word (ws ! j) ! l" None]
      allPlacedAt_member[of i ws k p] allPlacedAt_member[of j ws l p] assms
    by simp
  have i: "i \<in> set (contributorsAt ?L p)"
    using reconcile_contributor[of i ws k p cwi] assms by simp
  have j: "j \<in> set (contributorsAt ?L p)"
    using reconcile_contributor[of j ws l p cwi] assms by simp
  have all: "m < length ws \<and> \<not> wordValidity ws ?L ! m" if "m \<in> set (contributorsAt ?L p)" for m
    using that reconcile_contributors_in_range[of m cwi ws p] wordValidity_conflict[OF c that]
    by simp
  show ?thesis using c i j all by blast
qed

theorem conflict_invalidates_every_contributor_witness:
  "letterAt (reconcile None
      [\<lparr>word = ''HELLO'', direction = X, start = (0, 0, 0), description = ''Greeting''\<rparr>,
       \<lparr>word = ''PXXXX'', direction = Y, start = (4, 0, 0), description = ''Letter''\<rparr>])
      (4, 0, 0) = Some CHR ''?''
   \<and> wordValidity
      [\<lparr>word = ''HELLO'', direction = X, start = (0, 0, 0), description = ''Greeting''\<rparr>,
       \<lparr>word = ''PXXXX'', direction = Y, start = (4, 0, 0), description = ''Letter''\<rparr>]
      (reconcile None
      [\<lparr>word = ''HELLO'', direction = X, start = (0, 0, 0), description = ''Greeting''\<rparr>,
       \<lparr>word = ''PXXXX'', direction = Y, start = (4, 0, 0), description = ''Letter''\<rparr>])
     = [False, False]"
proof -
  let ?ws = "[\<lparr>word = ''HELLO'', direction = X, start = (0, 0, 0), description = ''Greeting''\<rparr>,
       \<lparr>word = ''PXXXX'', direction = Y, start = (4, 0, 0), description = ''Letter''\<rparr>]"
  have len: "length (wordValidity ?ws (reconcile None ?ws)) = 2"
    by (simp add: wordValidity_def length_markConflicts)
  have "letterAt (reconcile None ?ws) (4, 0, 0) = Some CHR ''?''
    \<and> \<not> wordValidity ?ws (reconcile None ?ws) ! 0
    \<and> \<not> wordValidity ?ws (reconcile None ?ws) ! 1"
    using conflict_invalidates_every_contributor[of 0 ?ws 1 4 0 "(4, 0, 0)" None]
    by simp
  then show ?thesis using len
    by (auto simp: length_Suc_conv numeral_2_eq_2)
qed

subsection \<open>Order independence\<close>

text \<open>
  C3. The letter the reconciler resolves on each block does not depend on the order of
  the word list (nor on the selected word): for a word list and any permutation of it
  the map from coordinate to resolved letter, conflict marker included, is the same.
  Reconciling the same list twice is the case of the identical permutation.
\<close>

theorem reconcile_letters_order_independent:
  assumes "mset ws = mset ws'"
  shows "letterAt (reconcile cwi ws) = letterAt (reconcile cwi' ws')"
proof (rule ext)
  fix p
  have "mset (allPlacedAt ws p) = mset (allPlacedAt ws' p)"
    using assms by (rule mset_allPlacedAt)
  then have "resolveAll None (allPlacedAt ws p) = resolveAll None (allPlacedAt ws' p)"
    by (rule resolveAll_mset)
  then show "letterAt (reconcile cwi ws) p = letterAt (reconcile cwi' ws') p"
    by (simp add: letterAt_reconcile)
qed


theorem reconcile_letters_order_independent_witness:
  "mset [\<lparr>word = ''HELLO'', direction = X, start = (0, 0, 0), description = ''Greeting''\<rparr>,
         \<lparr>word = ''OXXXX'', direction = Y, start = (4, 0, 0), description = ''Letter''\<rparr>]
   = mset [\<lparr>word = ''OXXXX'', direction = Y, start = (4, 0, 0), description = ''Letter''\<rparr>,
           \<lparr>word = ''HELLO'', direction = X, start = (0, 0, 0), description = ''Greeting''\<rparr>]
   \<and> letterAt (reconcile None
        [\<lparr>word = ''HELLO'', direction = X, start = (0, 0, 0), description = ''Greeting''\<rparr>,
         \<lparr>word = ''OXXXX'', direction = Y, start = (4, 0, 0), description = ''Letter''\<rparr>])
     = letterAt (reconcile (Some 0)
        [\<lparr>word = ''OXXXX'', direction = Y, start = (4, 0, 0), description = ''Letter''\<rparr>,
         \<lparr>word = ''HELLO'', direction = X, start = (0, 0, 0), description = ''Greeting''\<rparr>])
   \<and> letterAt (reconcile (Some 0)
        [\<lparr>word = ''OXXXX'', direction = Y, start = (4, 0, 0), description = ''Letter''\<rparr>,
         \<lparr>word = ''HELLO'', direction = X, start = (0, 0, 0), description = ''Greeting''\<rparr>])
        (4, 0, 0) = Some CHR ''O''"
proof -
  let ?a = "\<lparr>word = ''HELLO'', direction = X, start = (0, 0, 0), description = ''Greeting''\<rparr>"
  let ?b = "\<lparr>word = ''OXXXX'', direction = Y, start = (4, 0, 0), description = ''Letter''\<rparr>"
  have h: "mset [?a, ?b] = mset [?b, ?a]" by simp
  have v: "letterAt (reconcile (Some 0) [?b, ?a]) (4, 0, 0) = Some CHR ''O''"
    by (simp add: reconcile_def letterAt_def placeLetter_def wordOpacity_def)
  have e: "letterAt (reconcile None [?a, ?b]) = letterAt (reconcile (Some 0) [?b, ?a])"
    by (rule reconcile_letters_order_independent[OF h])
  show ?thesis
    by (intro conjI) (rule h, rule e, rule v)
qed

subsection \<open>Blank transparency\<close>

lemma resolveAll_blanks: "set cs \<subseteq> {CHR '' ''} \<Longrightarrow> resolveAll (Some l) cs = Some l"
  by (induction cs) auto

lemma set_placedAt: "set (placedAt st dir i cs p) \<subseteq> set cs"
  by (induction cs arbitrary: i) auto

text \<open>
  C4. Blank transparency. Placing a blank on a block that already has an entry leaves
  the letter of that entry as it is, so a blank never overrides a concrete letter and
  never turns a block into the conflict marker (a block shows "?" after a blank only if
  it showed "?" before); this holds for any state of the lattice, whatever the other
  words placed. A whole word of blanks appended to any word list changes no letter that
  was resolved. A letter arriving on a block that holds a blank replaces the blank, with
  no conflict marker unless the arriving character is itself "?".
\<close>

theorem blank_is_transparent:
  "(letterAt letters p = Some l \<longrightarrow>
      letterAt (placeLetter cwi wi p CHR '' '' letters) p = Some l)
   \<and> (letterAt (placeLetter cwi wi p CHR '' '' letters) p = Some CHR ''?'' \<longrightarrow>
      letterAt letters p = Some CHR ''?'')
   \<and> (letterAt letters p = Some CHR '' '' \<longrightarrow>
      letterAt (placeLetter cwi wi p c letters) p = Some c)
   \<and> (set (word b) \<subseteq> {CHR '' ''} \<and> letterAt (reconcile cwi ws) p = Some l \<longrightarrow>
      letterAt (reconcile cwi (ws @ [b])) p = Some l)"
proof -
  have 1: "letterAt letters p = Some l \<longrightarrow>
      letterAt (placeLetter cwi wi p CHR '' '' letters) p = Some l"
    by (simp add: letterAt_placeLetter)
  have 2: "letterAt (placeLetter cwi wi p CHR '' '' letters) p = Some CHR ''?'' \<longrightarrow>
      letterAt letters p = Some CHR ''?''"
    by (cases "letterAt letters p") (auto simp: letterAt_placeLetter split: if_splits)
  have 3: "letterAt letters p = Some CHR '' '' \<longrightarrow>
      letterAt (placeLetter cwi wi p c letters) p = Some c"
    by (simp add: letterAt_placeLetter)
  have 4: "letterAt (reconcile cwi (ws @ [b])) p = Some l"
    if b: "set (word b) \<subseteq> {CHR '' ''}" and l: "letterAt (reconcile cwi ws) p = Some l"
  proof -
    have "set (placedAt (start b) (direction b) 0 (word b) p) \<subseteq> {CHR '' ''}"
      using set_placedAt[of "start b" "direction b" 0 "word b" p] b by blast
    then have "resolveAll (Some l) (placedAt (start b) (direction b) 0 (word b) p) = Some l"
      by (rule resolveAll_blanks)
    moreover have "allPlacedAt (ws @ [b]) p =
        allPlacedAt ws p @ placedAt (start b) (direction b) 0 (word b) p"
      by (simp add: allPlacedAt_def)
    ultimately show ?thesis
      using l by (simp add: letterAt_reconcile resolveAll_append)
  qed
  show ?thesis using 1 2 3 4 by blast
qed

theorem blank_is_transparent_witness:
  "letterAt (reconcile None
      [\<lparr>word = ''HELLO'', direction = X, start = (0, 0, 0), description = ''Greeting''\<rparr>])
      (4, 0, 0) = Some CHR ''O''
   \<and> letterAt (placeLetter None 1 (4, 0, 0) CHR '' '' (reconcile None
      [\<lparr>word = ''HELLO'', direction = X, start = (0, 0, 0), description = ''Greeting''\<rparr>]))
      (4, 0, 0) = Some CHR ''O''
   \<and> letterAt (reconcile None
      [\<lparr>word = ''HELLO'', direction = X, start = (0, 0, 0), description = ''Greeting''\<rparr>,
       \<lparr>word = ''  '', direction = Y, start = (4, 0, 0), description = ''Blank''\<rparr>])
      (4, 0, 0) = Some CHR ''O''
   \<and> letterAt (reconcile None
      [\<lparr>word = ''  '', direction = Y, start = (4, 0, 0), description = ''Blank''\<rparr>])
      (4, 0, 0) = Some CHR '' ''
   \<and> letterAt (placeLetter None 1 (4, 0, 0) CHR ''O'' (reconcile None
      [\<lparr>word = ''  '', direction = Y, start = (4, 0, 0), description = ''Blank''\<rparr>]))
      (4, 0, 0) = Some CHR ''O''"
proof -
  let ?h = "\<lparr>word = ''HELLO'', direction = X, start = (0, 0, 0), description = ''Greeting''\<rparr>"
  let ?b = "\<lparr>word = ''  '', direction = Y, start = (4, 0, 0), description = ''Blank''\<rparr>"
  have h: "letterAt (reconcile None [?h]) (4, 0, 0) = Some CHR ''O''"
    by (simp add: reconcile_def letterAt_def placeLetter_def wordOpacity_def)
  have b: "letterAt (reconcile None [?b]) (4, 0, 0) = Some CHR '' ''"
    by (simp add: reconcile_def letterAt_def placeLetter_def wordOpacity_def)
  have sb: "set (word ?b) \<subseteq> {CHR '' ''}" by simp
  show ?thesis
    using h b sb
      blank_is_transparent[where letters = "reconcile None [?h]" and p = "(4, 0, 0)"
        and l = "CHR ''O''" and cwi = None and wi = 1 and b = ?b and ws = "[?h]"]
      blank_is_transparent[where letters = "reconcile None [?b]" and p = "(4, 0, 0)"
        and cwi = None and wi = 1 and c = "CHR ''O''"]
    by simp
qed

subsection \<open>Solving mode: the solved check\<close>

lemma solvedFrom_iff:
  "solvedFrom i ws guesses \<longleftrightarrow>
     (\<forall>j<length ws. i + j < length guesses \<and> guesses ! (i + j) = word (ws ! j))"
proof (induction ws arbitrary: i)
  case Nil
  then show ?case by simp
next
  case (Cons w ws)
  have "(\<forall>j<length (w # ws). i + j < length guesses \<and> guesses ! (i + j) = word ((w # ws) ! j))
    \<longleftrightarrow> (i < length guesses \<and> guesses ! i = word w)
       \<and> (\<forall>j<length ws. Suc i + j < length guesses \<and> guesses ! (Suc i + j) = word (ws ! j))"
    by (auto simp: less_Suc_eq_0_disj)
  then show ?case
    using Cons.IH[of "Suc i"] by (auto simp: guessAt_def)
qed

text \<open>
  C7. In solving mode \<open>solved\<close> is true exactly when, at every index of the crossword's
  words, there is a guess and it is the answer's text, character for character (so of
  the same length). The check reads the answers and the guesses only: the reconciled
  lattice and its conflict markers are no argument of it. With no words it is true.
\<close>

theorem solved_iff_every_guess_is_the_answer:
  "(solved cw guesses \<longleftrightarrow>
      (\<forall>i<length (words cw). i < length guesses \<and> guesses ! i = word (words cw ! i)))
   \<and> (length guesses = length (words cw) \<longrightarrow>
        (solved cw guesses \<longleftrightarrow> guesses = map word (words cw)))
   \<and> (words cw = [] \<longrightarrow> solved cw guesses)"
proof -
  have 1: "solved cw guesses \<longleftrightarrow>
      (\<forall>i<length (words cw). i < length guesses \<and> guesses ! i = word (words cw ! i))"
    by (simp add: solved_def solvedFrom_iff)
  have 2: "solved cw guesses \<longleftrightarrow> guesses = map word (words cw)"
    if "length guesses = length (words cw)"
    using that unfolding 1 by (auto simp: list_eq_iff_nth_eq)
  have 3: "solved cw guesses" if "words cw = []"
    using that by (simp add: solved_def)
  show ?thesis using 1 2 3 by blast
qed

theorem solved_iff_every_guess_is_the_answer_witness:
  "solved \<lparr>name = ''Example'', words =
      [\<lparr>word = ''HELLO'', direction = X, start = (0, 0, 0), description = ''Greeting''\<rparr>,
       \<lparr>word = ''WORLD'', direction = Y, start = (4, 1, 0), description = ''Earth''\<rparr>]\<rparr>
      [''HELLO'', ''WORLD'']
   \<and> \<not> solved \<lparr>name = ''Example'', words =
      [\<lparr>word = ''HELLO'', direction = X, start = (0, 0, 0), description = ''Greeting''\<rparr>,
       \<lparr>word = ''WORLD'', direction = Y, start = (4, 1, 0), description = ''Earth''\<rparr>]\<rparr>
      [''HELLO'', ''WORL'']
   \<and> solved \<lparr>name = ''Empty'', words = []\<rparr> []"
proof -
  let ?cw = "\<lparr>name = ''Example'', words =
      [\<lparr>word = ''HELLO'', direction = X, start = (0, 0, 0), description = ''Greeting''\<rparr>,
       \<lparr>word = ''WORLD'', direction = Y, start = (4, 1, 0), description = ''Earth''\<rparr>]\<rparr>"
  have "length gs = length (words ?cw) \<longrightarrow> (solved ?cw gs \<longleftrightarrow> gs = map word (words ?cw))"
    for gs
    using solved_iff_every_guess_is_the_answer[of ?cw gs] by blast
  then have a: "solved ?cw [''HELLO'', ''WORLD'']" and b: "\<not> solved ?cw [''HELLO'', ''WORL'']"
    by simp_all
  have c: "solved \<lparr>name = ''Empty'', words = []\<rparr> []"
    using solved_iff_every_guess_is_the_answer[of "\<lparr>name = ''Empty'', words = []\<rparr>" "[]"]
    by simp
  show ?thesis using a b c by blast
qed

subsection \<open>Solving mode: the two passes\<close>

lemma dom_blankLetter: "dom (map_of (blankLetter cwi wi pos L)) = insert pos (dom (map_of L))"
  by (simp add: blankLetter_def update_conv')

lemma dom_blankWordFrom_mono:
  "dom (map_of L) \<subseteq> dom (map_of (blankWordFrom cwi wi st dir i cs L))"
proof (induction cs arbitrary: i L)
  case Nil
  then show ?case by simp
next
  case (Cons c cs)
  have "dom (map_of L) \<subseteq> dom (map_of (blankLetter cwi wi (wordLetterPosition st dir (int i)) L))"
    by (auto simp: dom_blankLetter)
  also have "\<dots> \<subseteq> dom (map_of (blankWordFrom cwi wi st dir (Suc i) cs
      (blankLetter cwi wi (wordLetterPosition st dir (int i)) L)))"
    by (rule Cons.IH)
  finally show ?case by simp
qed

lemma dom_blankWordFrom_visits:
  "k < length cs \<Longrightarrow>
   wordLetterPosition st dir (int (i + k)) \<in> dom (map_of (blankWordFrom cwi wi st dir i cs L))"
proof (induction cs arbitrary: i L k)
  case Nil
  then show ?case by simp
next
  case (Cons c cs)
  let ?L = "blankLetter cwi wi (wordLetterPosition st dir (int i)) L"
  show ?case
  proof (cases k)
    case 0
    have "wordLetterPosition st dir (int i) \<in> dom (map_of ?L)"
      by (simp add: dom_blankLetter)
    then have "wordLetterPosition st dir (int i)
        \<in> dom (map_of (blankWordFrom cwi wi st dir (Suc i) cs ?L))"
      using dom_blankWordFrom_mono by blast
    with 0 show ?thesis by simp
  next
    case (Suc k')
    with Cons.prems show ?thesis
      using Cons.IH[of k' "Suc i" ?L] by simp
  qed
qed

lemma dom_answerPassFrom_mono:
  "dom (map_of L) \<subseteq> dom (map_of (answerPassFrom cwi wi ws L))"
proof (induction ws arbitrary: wi L)
  case Nil
  then show ?case by simp
next
  case (Cons w ws)
  have "dom (map_of L) \<subseteq> dom (map_of (blankWordFrom cwi wi (start w) (direction w) 0 (word w) L))"
    by (rule dom_blankWordFrom_mono)
  also have "\<dots> \<subseteq> dom (map_of (answerPassFrom cwi (Suc wi) ws
      (blankWordFrom cwi wi (start w) (direction w) 0 (word w) L)))"
    by (rule Cons.IH)
  finally show ?case by simp
qed

lemma dom_answerPassFrom:
  "j < length ws \<Longrightarrow> k < length (word (ws ! j)) \<Longrightarrow>
   wordLetterPosition (start (ws ! j)) (direction (ws ! j)) (int k)
     \<in> dom (map_of (answerPassFrom cwi wi ws L))"
proof (induction ws arbitrary: wi L j)
  case Nil
  then show ?case by simp
next
  case (Cons w ws)
  let ?L = "blankWordFrom cwi wi (start w) (direction w) 0 (word w) L"
  show ?case
  proof (cases j)
    case 0
    with Cons.prems have "wordLetterPosition (start w) (direction w) (int k) \<in> dom (map_of ?L)"
      using dom_blankWordFrom_visits[of k "word w" "start w" "direction w" 0 cwi wi L] by simp
    then have "wordLetterPosition (start w) (direction w) (int k)
        \<in> dom (map_of (answerPassFrom cwi (Suc wi) ws ?L))"
      using dom_answerPassFrom_mono by blast
    with 0 show ?thesis by simp
  next
    case (Suc j')
    with Cons.prems show ?thesis
      using Cons.IH[of j' "Suc wi" ?L] by simp
  qed
qed

lemma guessLetter_total:
  "pos \<in> dom (map_of L) \<Longrightarrow>
   \<exists>L'. guessLetter cwi wi pos c L = Inr L' \<and> dom (map_of L') = dom (map_of L)"
  by (auto simp: guessLetter_def update_conv')

lemma guessWordFrom_total:
  "(\<And>k. k < length cs \<Longrightarrow> wordLetterPosition st dir (int (i + k)) \<in> dom (map_of L)) \<Longrightarrow>
   \<exists>L'. guessWordFrom cwi wi st dir i cs L = Inr L' \<and> dom (map_of L') = dom (map_of L)"
proof (induction cs arbitrary: i L)
  case Nil
  then show ?case by simp
next
  case (Cons c cs)
  have "wordLetterPosition st dir (int i) \<in> dom (map_of L)"
    using Cons.prems[of 0] by simp
  then obtain L1 where L1: "guessLetter cwi wi (wordLetterPosition st dir (int i)) c L = Inr L1"
      "dom (map_of L1) = dom (map_of L)"
    using guessLetter_total by blast
  have "wordLetterPosition st dir (int (Suc i + k)) \<in> dom (map_of L1)" if "k < length cs" for k
    using Cons.prems[of "Suc k"] that L1(2) by simp
  then obtain L' where "guessWordFrom cwi wi st dir (Suc i) cs L1 = Inr L'"
      "dom (map_of L') = dom (map_of L1)"
    using Cons.IH[of "Suc i" L1] by blast
  with L1 show ?case by simp
qed

lemma guessPassFrom_total:
  "wi + length gs \<le> length answers \<Longrightarrow>
   (\<And>j k. j < length gs \<Longrightarrow> k < length (gs ! j) \<Longrightarrow>
      wordLetterPosition (start (answers ! (wi + j))) (direction (answers ! (wi + j))) (int k)
        \<in> dom (map_of L)) \<Longrightarrow>
   \<exists>L'. guessPassFrom cwi answers wi gs L = Inr L' \<and> dom (map_of L') = dom (map_of L)"
proof (induction gs arbitrary: wi L)
  case Nil
  then show ?case by simp
next
  case (Cons g gs)
  have wi: "wi < length answers" using Cons.prems(1) by simp
  have "wordLetterPosition (start (answers ! wi)) (direction (answers ! wi)) (int (0 + k))
      \<in> dom (map_of L)" if "k < length g" for k
    using Cons.prems(2)[of 0 k] that by simp
  then obtain L1 where L1:
      "guessWordFrom cwi wi (start (answers ! wi)) (direction (answers ! wi)) 0 g L = Inr L1"
      "dom (map_of L1) = dom (map_of L)"
    using guessWordFrom_total[of g "start (answers ! wi)" "direction (answers ! wi)" 0 L cwi wi]
    by blast
  have "wordLetterPosition (start (answers ! (Suc wi + j))) (direction (answers ! (Suc wi + j)))
      (int k) \<in> dom (map_of L1)" if "j < length gs" "k < length (gs ! j)" for j k
    using Cons.prems(2)[of "Suc j" k] that L1(2) by simp
  moreover have "Suc wi + length gs \<le> length answers" using Cons.prems(1) by simp
  ultimately obtain L' where "guessPassFrom cwi answers (Suc wi) gs L1 = Inr L'"
      "dom (map_of L') = dom (map_of L1)"
    using Cons.IH[of "Suc wi" L1] by blast
  with L1 wi show ?case by simp
qed

text \<open>
  C10. In solving mode, when there are no more guesses than answer words and every guess
  is at most as long as its answer, every block the guess pass visits was given an entry
  by the answer pass, so the unguarded read of \<^verbatim>\<open>entry.letter\<close> never meets a missing
  entry, and the two passes return a lattice (no \<open>TypeError\<close>).
\<close>

theorem guess_pass_never_reads_missing_entry:
  assumes "length guesses \<le> length (words cw)"
    and "\<forall>j<length guesses. length (guesses ! j) \<le> length (word (words cw ! j))"
  shows "(\<forall>j<length guesses. \<forall>k<length (guesses ! j).
            map_of (answerPass cwi (words cw))
              (wordLetterPosition (start (words cw ! j)) (direction (words cw ! j)) (int k)) \<noteq> None)
         \<and> (\<exists>letters. viewLetters cwi cw guesses = Inr letters)"
proof -
  have visited: "wordLetterPosition (start (words cw ! j)) (direction (words cw ! j)) (int k)
      \<in> dom (map_of (answerPass cwi (words cw)))"
    if "j < length guesses" "k < length (guesses ! j)" for j k
  proof -
    have "j < length (words cw)" "k < length (word (words cw ! j))"
      using that assms by auto
    then show ?thesis unfolding answerPass_def by (rule dom_answerPassFrom)
  qed
  have "\<exists>L'. guessPassFrom cwi (words cw) 0 guesses (answerPass cwi (words cw)) = Inr L'
      \<and> dom (map_of L') = dom (map_of (answerPass cwi (words cw)))"
    using assms(1) visited by (intro guessPassFrom_total) simp_all
  then show ?thesis using visited by (auto simp: viewLetters_def)
qed

theorem guess_pass_never_reads_missing_entry_witness:
  "(\<exists>letters. viewLetters None
      \<lparr>name = ''Example'', words =
        [\<lparr>word = ''HELLO'', direction = X, start = (0, 0, 0), description = ''Greeting''\<rparr>,
         \<lparr>word = ''WORLD'', direction = Y, start = (4, 1, 0), description = ''Earth''\<rparr>]\<rparr>
      [''HEL'', ''WORLD''] = Inr letters)
   \<and> map_of (answerPass None
        [\<lparr>word = ''HELLO'', direction = X, start = (0, 0, 0), description = ''Greeting''\<rparr>,
         \<lparr>word = ''WORLD'', direction = Y, start = (4, 1, 0), description = ''Earth''\<rparr>])
        (4, -3, 0) \<noteq> None"
proof -
  let ?cw = "\<lparr>name = ''Example'', words =
        [\<lparr>word = ''HELLO'', direction = X, start = (0, 0, 0), description = ''Greeting''\<rparr>,
         \<lparr>word = ''WORLD'', direction = Y, start = (4, 1, 0), description = ''Earth''\<rparr>]\<rparr>"
  let ?gs = "[''HEL'', ''WORLD'']"
  have 1: "length ?gs \<le> length (words ?cw)" by simp
  have 2: "\<forall>j<length ?gs. length (?gs ! j) \<le> length (word (words ?cw ! j))"
    by (simp add: less_Suc_eq_0_disj)
  note t = guess_pass_never_reads_missing_entry[OF 1 2, of None]
  from t have "\<exists>letters. viewLetters None ?cw ?gs = Inr letters" by blast
  moreover have "map_of (answerPass None (words ?cw))
      (wordLetterPosition (start (words ?cw ! 1)) (direction (words ?cw ! 1)) (int 4)) \<noteq> None"
    by (rule t[THEN conjunct1, rule_format, of 1 4]) simp_all
  ultimately show ?thesis by simp
qed

subsection \<open>The loader\<close>

text \<open>
  C5. Specified: a file that parses and has the required shape, but in which some word
  has a character outside A-Z at any index, is rejected with "Invalid crossword" and the
  open callback is not called. The source tests \<^verbatim>\<open>word[i].charCodeAt(i)\<close>, which is
  \<^verbatim>\<open>NaN\<close> for every index but 0, so only the first character of a word is tested: the
  file with the single word "Ab" satisfies the schema and is opened, while the one with
  "aB" is rejected.
\<close>

theorem loader_accepts_lower_case_after_first_letter:
  "crosswordSchema \<lparr>name = ''N'', words =
        [\<lparr>word = ''Ab'', direction = X, start = (0, 0, 0), description = ''d''\<rparr>]\<rparr>
   \<and> openCrossword (Some \<lparr>name = ''N'', words =
        [\<lparr>word = ''Ab'', direction = X, start = (0, 0, 0), description = ''d''\<rparr>]\<rparr>)
     = Opened \<lparr>name = ''N'', words =
        [\<lparr>word = ''Ab'', direction = X, start = (0, 0, 0), description = ''d''\<rparr>]\<rparr>
   \<and> openCrossword (Some \<lparr>name = ''N'', words =
        [\<lparr>word = ''aB'', direction = X, start = (0, 0, 0), description = ''d''\<rparr>]\<rparr>)
     = InvalidCrossword"
  by (simp add: openCrossword_def crosswordSchema_def charCodeAt_def numLess_def)

subsection \<open>Undo and redo\<close>




lemma structuralEdit_recordsHistory: "structuralEdit a \<Longrightarrow> recordsHistory a"
  by (cases a) simp_all

lemma recordsHistory_never_NotAWord: "recordsHistory a \<Longrightarrow> reducer s a \<noteq> Inl NotAWord"
proof (cases a)
  case (DeleteWord i)
  have "orbitCenterHasBlockFrom oc i j ws \<noteq> Inl NotAWord" for oc j ws
    by (induction ws arbitrary: j) (auto split: option.splits)
  then have "orbitCenterHasBlockFrom (orbitCenter s) i 0 (words (crossword s)) \<noteq> Inl NotAWord" .
  then show ?thesis using DeleteWord by (auto simp: Let_def split: sum.splits)
qed (auto simp: Let_def split: option.splits)










subsection \<open>History truncation\<close>

lemma structural_edit_pushes_history:
  assumes "structuralEdit a" and "reducer s a = Inr s'"
  shows "(\<exists>entry. history s' = take (historyIndex s + 1) (history s) @ [entry])
         \<and> historyIndex s' = historyIndex s + 1"
  using assms
  by (cases a) (auto simp: pushHistory_def Let_def split: if_splits option.splits sum.splits)

lemma undo_moves_cursor_back:
  assumes "historyIndex s \<noteq> 0" and "reducer s Undo = Inr u"
  shows "history u = history s \<and> historyIndex u = historyIndex s - 1
         \<and> historyIndex s < length (history s)"
  using assms by (auto split: if_splits sum.splits)

lemma redoTimes_at_end:
  "historyIndex s + 1 = length (history s) \<Longrightarrow> redoTimes n s = Inr s"
  by (induction n) auto

text \<open>
  C6. Every structural edit cuts the history down to the entries from index 0 to the
  cursor, appends one entry, and moves the cursor up by one. Hence, after edit A, an
  undo and edit B, the history is the one from before A followed by the entry of B
  alone, the cursor is on that last entry, and any number of redos leaves the state as
  it is: the entry of A cannot be reached again.
\<close>

theorem structural_edit_truncates_history:
  "(structuralEdit a \<and> reducer s a = Inr sa \<longrightarrow>
      (\<exists>entry. history sa = take (historyIndex s + 1) (history s) @ [entry])
      \<and> historyIndex sa = historyIndex s + 1)
   \<and> (structuralEdit a \<and> structuralEdit b \<and> reducer s a = Inr sa
       \<and> reducer sa Undo = Inr su \<and> reducer su b = Inr sb \<longrightarrow>
      (\<exists>entry. history sb = take (historyIndex s + 1) (history s) @ [entry])
      \<and> historyIndex sb = historyIndex s + 1
      \<and> historyIndex sb + 1 = length (history sb)
      \<and> (\<forall>n. redoTimes n sb = Inr sb))"
proof (intro conjI impI)
  assume "structuralEdit a \<and> reducer s a = Inr sa"
  then show "\<exists>entry. history sa = take (historyIndex s + 1) (history s) @ [entry]"
    and "historyIndex sa = historyIndex s + 1"
    using structural_edit_pushes_history[of a s sa] by blast+
next
  assume h: "structuralEdit a \<and> structuralEdit b \<and> reducer s a = Inr sa
       \<and> reducer sa Undo = Inr su \<and> reducer su b = Inr sb"
  then obtain ea where a: "history sa = take (historyIndex s + 1) (history s) @ [ea]"
      "historyIndex sa = historyIndex s + 1"
    using structural_edit_pushes_history[of a s sa] by blast
  have u: "history su = history sa" "historyIndex su = historyIndex s"
      "historyIndex sa < length (history sa)"
    using undo_moves_cursor_back[of sa su] h a(2) by simp_all
  have len: "historyIndex s < length (history s)"
    using u(3) a by (simp add: min_def split: if_splits)
  obtain eb where b: "history sb = take (historyIndex su + 1) (history su) @ [eb]"
      "historyIndex sb = historyIndex su + 1"
    using structural_edit_pushes_history[of b su sb] h by blast
  have hist: "history sb = take (historyIndex s + 1) (history s) @ [eb]"
    using b(1) u a(1) len by (simp add: min_def)
  show "\<exists>entry. history sb = take (historyIndex s + 1) (history s) @ [entry]"
    using hist by blast
  show idx: "historyIndex sb = historyIndex s + 1"
    using b(2) u(2) by simp
  show atEnd: "historyIndex sb + 1 = length (history sb)"
    using hist idx len by (simp add: min_def)
  show "\<forall>n. redoTimes n sb = Inr sb"
    using redoTimes_at_end[OF atEnd] by blast
qed

theorem structural_edit_truncates_history_witness:
  "\<exists>sa su sb.
     reducer initialState NewWord = Inr sa \<and> reducer sa Undo = Inr su
     \<and> reducer su (SetName ''N'') = Inr sb
     \<and> history sa =
         [\<lparr>h_currentWordIndex = None, h_orbitCenter = (0, 0, 0), h_name = [],
            h_wordsChange = None\<rparr>,
          \<lparr>h_currentWordIndex = Some 0, h_orbitCenter = (0, 0, 0), h_name = [],
            h_wordsChange = Some ChangeNewWord\<rparr>]
     \<and> history sb =
         [\<lparr>h_currentWordIndex = None, h_orbitCenter = (0, 0, 0), h_name = [],
            h_wordsChange = None\<rparr>,
          \<lparr>h_currentWordIndex = None, h_orbitCenter = (0, 0, 0), h_name = ''N'',
            h_wordsChange = None\<rparr>]
     \<and> historyIndex sb = 1
     \<and> redoTimes 3 sb = Inr sb"
proof -
  obtain sa where sa: "reducer initialState NewWord = Inr sa" by simp
  obtain su where su: "reducer sa Undo = Inr su"
    using sa by (auto simp: initialState_def pushHistory_def undoWords_def)
  obtain sb where sb: "reducer su (SetName ''N'') = Inr sb" by simp
  have e: "structuralEdit NewWord" "structuralEdit (SetName ''N'')" by simp_all
  have ha: "history sa =
         [\<lparr>h_currentWordIndex = None, h_orbitCenter = (0, 0, 0), h_name = [],
            h_wordsChange = None\<rparr>,
          \<lparr>h_currentWordIndex = Some 0, h_orbitCenter = (0, 0, 0), h_name = [],
            h_wordsChange = Some ChangeNewWord\<rparr>]"
    using sa by (auto simp: initialState_def pushHistory_def)
  have hb: "history sb =
         [\<lparr>h_currentWordIndex = None, h_orbitCenter = (0, 0, 0), h_name = [],
            h_wordsChange = None\<rparr>,
          \<lparr>h_currentWordIndex = None, h_orbitCenter = (0, 0, 0), h_name = ''N'',
            h_wordsChange = None\<rparr>]"
    using sa su sb by (auto simp: initialState_def pushHistory_def undoWords_def)
  have "historyIndex sb = historyIndex initialState + 1 \<and> (\<forall>n. redoTimes n sb = Inr sb)"
    using structural_edit_truncates_history[of NewWord initialState sa "SetName ''N''" su sb]
      e sa su sb by blast
  then have "historyIndex sb = 1" "redoTimes 3 sb = Inr sb"
    by (simp_all add: initialState_def)
  with sa su sb ha hb show ?thesis by blast
qed

subsection \<open>Focus after a deletion\<close>

lemma wordBlocks_iff:
  "p \<in> set (wordBlocks w) \<longleftrightarrow>
     (\<exists>k<length (word w). p = wordLetterPosition (start w) (direction w) (int k))"
  by (auto simp: wordBlocks_def)

lemma betweenEnds_same: "betweenEnds c x c \<longleftrightarrow> x = c"
  by (auto simp: betweenEnds_def)

lemma betweenEnds_up:
  assumes "0 < n" and "\<bar>c\<bar> + int n \<le> 2 ^ 53"
  shows "betweenEnds c x (jsAdd c (int n - 1)) \<longleftrightarrow> (\<exists>k<n. x = jsAdd c (int k))"
proof -
  have e: "jsAdd c (int n - 1) = c + int n - 1"
    using assms by (simp add: jsAdd_def roundDouble_safe)
  have k: "jsAdd c (int k) = c + int k" if "k < n" for k
    using assms that by (simp add: jsAdd_def roundDouble_safe)
  have "betweenEnds c x (c + int n - 1) \<longleftrightarrow> (\<exists>k<n. x = c + int k)"
  proof
    assume "betweenEnds c x (c + int n - 1)"
    then have "c \<le> x" "x \<le> c + int n - 1"
      using assms(1) by (auto simp: betweenEnds_def)
    then have "nat (x - c) < n" "x = c + int (nat (x - c))" by auto
    then show "\<exists>k<n. x = c + int k" by blast
  next
    assume "\<exists>k<n. x = c + int k"
    then show "betweenEnds c x (c + int n - 1)" by (auto simp: betweenEnds_def)
  qed
  then show ?thesis using e k by auto
qed

lemma betweenEnds_down:
  assumes "0 < n" and "\<bar>c\<bar> + int n \<le> 2 ^ 53"
  shows "betweenEnds c x (jsSub c (int n - 1)) \<longleftrightarrow> (\<exists>k<n. x = jsSub c (int k))"
proof -
  have e: "jsSub c (int n - 1) = c - int n + 1"
    using assms by (simp add: jsSub_def roundDouble_safe)
  have k: "jsSub c (int k) = c - int k" if "k < n" for k
    using assms that by (simp add: jsSub_def roundDouble_safe)
  have "betweenEnds c x (c - int n + 1) \<longleftrightarrow> (\<exists>k<n. x = c - int k)"
  proof
    assume "betweenEnds c x (c - int n + 1)"
    then have "x \<le> c" "c - int n + 1 \<le> x"
      using assms(1) by (auto simp: betweenEnds_def)
    then have "nat (c - x) < n" "x = c - int (nat (c - x))" by auto
    then show "\<exists>k<n. x = c - int k" by blast
  next
    assume "\<exists>k<n. x = c - int k"
    then show "betweenEnds c x (c - int n + 1)" by (auto simp: betweenEnds_def)
  qed
  then show ?thesis using e k by auto
qed

lemma coversOrbitCenter_iff_block:
  assumes "word w \<noteq> []" and "safeWord w"
  shows "coversOrbitCenter oc w \<longleftrightarrow> oc \<in> set (wordBlocks w)"
proof -
  obtain sx sy sz where st: "start w = (sx, sy, sz)" by (cases "start w")
  obtain ox oy oz where oc: "oc = (ox, oy, oz)" by (cases oc)
  have n: "0 < length (word w)" using assms(1) by simp
  have b: "\<bar>sx\<bar> + int (length (word w)) \<le> 2 ^ 53" "\<bar>sy\<bar> + int (length (word w)) \<le> 2 ^ 53"
      "\<bar>sz\<bar> + int (length (word w)) \<le> 2 ^ 53"
    using assms(2) by (simp_all add: safeWord_def st)
  show ?thesis
  proof (cases "direction w")
    case X
    show ?thesis
      using betweenEnds_up[OF n b(1), of ox]
      by (auto simp: coversOrbitCenter_def wordBlocks_iff st oc X betweenEnds_same)
  next
    case Y
    show ?thesis
      using betweenEnds_down[OF n b(2), of oy]
      by (auto simp: coversOrbitCenter_def wordBlocks_iff st oc Y betweenEnds_same)
  next
    case Z
    show ?thesis
      using betweenEnds_up[OF n b(3), of oz]
      by (auto simp: coversOrbitCenter_def wordBlocks_iff st oc Z betweenEnds_same)
  qed
qed

lemma orbitCenterHasBlockFrom_iff:
  "orbitCenterHasBlockFrom oc index i (map Some ws) =
     Inr (\<exists>j<length ws. i + j \<noteq> index \<and> coversOrbitCenter oc (ws ! j))"
proof (induction ws arbitrary: i)
  case Nil
  then show ?case by simp
next
  case (Cons w ws)
  have "(\<exists>j<length (w # ws). i + j \<noteq> index \<and> coversOrbitCenter oc ((w # ws) ! j)) \<longleftrightarrow>
        (i \<noteq> index \<and> coversOrbitCenter oc w)
        \<or> (\<exists>j<length ws. Suc i + j \<noteq> index \<and> coversOrbitCenter oc (ws ! j))"
    by (auto simp: less_Suc_eq_0_disj)
  then show ?case using Cons.IH[of "Suc i"] by auto
qed

lemma deleteWord_focus_when_no_empty_word:
  assumes "words (crossword s) = map Some ws"
    and "\<forall>j<length ws. j \<noteq> index \<longrightarrow> word (ws ! j) \<noteq> [] \<and> safeWord (ws ! j)"
  shows "\<exists>s'. reducer s (DeleteWord index) = Inr s' \<and> orbitCenter s' =
     (if \<exists>j<length ws. j \<noteq> index \<and> orbitCenter s \<in> set (wordBlocks (ws ! j))
      then orbitCenter s else (0, 0, 0))"
proof -
  have "(\<exists>j<length ws. 0 + j \<noteq> index \<and> coversOrbitCenter (orbitCenter s) (ws ! j)) \<longleftrightarrow>
      (\<exists>j<length ws. j \<noteq> index \<and> orbitCenter s \<in> set (wordBlocks (ws ! j)))"
    using assms(2) coversOrbitCenter_iff_block[of _ "orbitCenter s"] by (simp, blast)
  then show ?thesis
    using assms(1) orbitCenterHasBlockFrom_iff[of "orbitCenter s" index 0 ws]
    by (auto simp: Let_def)
qed

text \<open>
  C9. Specified: after a \<^verbatim>\<open>DeleteWord\<close>, when no remaining word has a letter block on
  the orbit centre, the orbit centre is reset to (0,0,0); otherwise it is unchanged. The
  source takes the end block of a word at index \<open>length - 1\<close>, which for a word with no
  letters is the block before its start, and so counts an empty word as covering its
  start and the block before it (for words with letters, on safe integer coordinates,
  the test is exact: \<open>deleteWord_focus_when_no_empty_word\<close>). Reached through the editor:
  a word "AB" from (5,0,0) along X, focus on its block (6,0,0); then a new, still empty
  word, which starts on the focus; then the deletion of "AB". No letter block is left,
  yet the focus stays on (6,0,0).
\<close>

theorem deleteWord_keeps_focus_on_empty_word:
  "map_sum id (\<lambda>s. (words (crossword s), orbitCenter s))
     (dispatchAll initialState
        [NewWord, SetWord ''AB'', SetStart (5, 0, 0), ShowWordList, NewWord, ShowWordList])
     = Inr ([Some \<lparr>word = ''AB'', direction = X, start = (5, 0, 0), description = []\<rparr>,
             Some \<lparr>word = [], direction = X, start = (6, 0, 0), description = []\<rparr>], (6, 0, 0))
   \<and> map_sum id (\<lambda>s. (map (map_option wordBlocks) (words (crossword s)), orbitCenter s))
     (dispatchAll initialState
        [NewWord, SetWord ''AB'', SetStart (5, 0, 0), ShowWordList, NewWord, ShowWordList,
         DeleteWord 0])
     = Inr ([Some []], (6, 0, 0))"
  by (simp add: initialState_def currentWord_def slotAt_def pushHistory_def spliceWord_def
        Let_def coversOrbitCenter_def betweenEnds_def wordBlocks_def)

end
